theory Spec2Isabelle
  imports Complex_Main
begin

section \<open>Text primitives\<close>

text \<open>
  JavaScript strings are modelled as HOL strings. The model covers ASCII text: the
  white space of \<^verbatim>\<open>String.prototype.trim\<close> and of the regular-expression class
  \<^verbatim>\<open>\s\<close> is the ASCII white space, \<^verbatim>\<open>\d\<close> is \<^verbatim>\<open>0-9\<close>, and letters are
  \<^verbatim>\<open>A-Z\<close> and \<^verbatim>\<open>a-z\<close>. Characters outside ASCII are left alone by every function
  below and count neither as white space nor as letters or digits.
\<close>

definition isSpace :: "char \<Rightarrow> bool" where
  "isSpace c = (c \<in> set [CHR '' '', CHR 0x09, CHR 0x0A, CHR 0x0B, CHR 0x0C, CHR 0x0D])"

definition isDigit :: "char \<Rightarrow> bool" where
  "isDigit c = (c \<in> set ''0123456789'')"

definition upperChars :: string where
  "upperChars = ''ABCDEFGHIJKLMNOPQRSTUVWXYZ''"

definition lowerChars :: string where
  "lowerChars = ''abcdefghijklmnopqrstuvwxyz''"

definition toLowerChar :: "char \<Rightarrow> char" where
  "toLowerChar c = (case map_of (zip upperChars lowerChars) c of Some l \<Rightarrow> l | None \<Rightarrow> c)"

definition toLowerCase :: "string \<Rightarrow> string" where
  "toLowerCase s = map toLowerChar s"

definition trim :: "string \<Rightarrow> string" where
  "trim s = rev (dropWhile isSpace (rev (dropWhile isSpace s)))"

section \<open>Duration parser (parseDuration)\<close>

definition hourUnits :: "string list" where
  "hourUnits = [''h'', ''hr'', ''hour'', ''hours'']"

definition minuteUnits :: "string list" where
  "minuteUnits = [''m'', ''min'', ''mins'', ''minute'', ''minutes'']"

text \<open>
  The match of \<^verbatim>\<open>/^(\d+(?:\.\d+)?)(h|hr|hour|hours|m|min|mins|minute|minutes)$/i\<close>:
  the two capture groups, or \<open>None\<close>. The greedy digit runs cannot give digits back,
  since no unit starts with a digit or a dot, so the match is read off from left to
  right.
\<close>

definition durationMatch :: "string \<Rightarrow> (string \<times> string) option" where
  "durationMatch token =
     (let ds1 = takeWhile isDigit token; r1 = dropWhile isDigit token in
      if ds1 = [] then None
      else
        let (num, unit) =
          (case r1 of
             [] \<Rightarrow> (ds1, r1)
           | c # r2 \<Rightarrow>
               if c = CHR ''.'' \<and> takeWhile isDigit r2 \<noteq> []
               then (ds1 @ c # takeWhile isDigit r2, dropWhile isDigit r2)
               else (ds1, r1))
        in if toLowerCase unit \<in> set (hourUnits @ minuteUnits) then Some (num, unit) else None)"

definition digitVal :: "char \<Rightarrow> nat" where
  "digitVal c = of_char c - 48"

definition digitsVal :: "string \<Rightarrow> nat" where
  "digitsVal ds = foldl (\<lambda>a c. 10 * a + digitVal c) 0 ds"

text \<open>
  \<^verbatim>\<open>Number(match[1])\<close> on the texts the first capture group can hold (digits, or digits,
  a dot and digits). The value is the exact rational the text denotes; the rounding of
  that value to a double is not modelled, only its overflow to \<^verbatim>\<open>Infinity\<close>: a
  decimal rounds to \<^verbatim>\<open>Infinity\<close> from \<open>2^1024 - 2^970\<close> on.
\<close>

definition Number :: "string \<Rightarrow> rat" where
  "Number s =
     (let ip = takeWhile isDigit s in
      case dropWhile isDigit s of
        [] \<Rightarrow> of_nat (digitsVal ip)
      | _ # fp \<Rightarrow> of_nat (digitsVal ip) + of_nat (digitsVal fp) / 10 ^ length fp)"

definition isFinite :: "rat \<Rightarrow> bool" where
  "isFinite v = (v < 2 ^ 1024 - 2 ^ 970)"

lemma isFinite_code [code]:
  "isFinite v =
     (v < 179769313486231580793728971405303415079934132710037826936173778980444968292764750946649017977587207096330286416692887910946555547851940402630657488671505820681908902000708383676273854845817711531764475730270069855571366959622842914819860834936475292719074168444365510704342711559699508093042880177904174497792)"
  by (simp add: isFinite_def)

definition parseDuration :: "string \<Rightarrow> rat option" where
  "parseDuration token =
     (case durationMatch token of
        None \<Rightarrow> None
      | Some (num, unit0) \<Rightarrow>
          let v = Number num; unit = toLowerCase unit0 in
          if \<not> isFinite v then None
          else
            let isHours = (unit = ''h'' \<or> unit = ''hr'' \<or> unit = ''hour'' \<or> unit = ''hours'')
            in if isHours then Some v else Some (v / 60))"





section \<open>Line grammar parser (parseTimeLine)\<close>

text \<open>
  An exception thrown by the program: the JavaScript error class and its message.
\<close>

datatype exn = TypeError string | Error string | SyntaxError string

fun message :: "exn \<Rightarrow> string" where
  "message (TypeError m) = m"
| "message (Error m) = m"
| "message (SyntaxError m) = m"

text \<open>
  A plain JavaScript object used as a dictionary, as \<^verbatim>\<open>tagMeta = {}\<close> is: its own
  properties in insertion order, and behind them the properties every object inherits
  from \<^verbatim>\<open>Object.prototype\<close>. Reading an inherited name gives a function (or, for
  \<^verbatim>\<open>__proto__\<close>, the prototype object), which is truthy and is not an array.
\<close>

definition objectPrototypeKeys :: "string list" where
  "objectPrototypeKeys =
     [''constructor'', ''__defineGetter__'', ''__defineSetter__'', ''hasOwnProperty'',
      ''__lookupGetter__'', ''__lookupSetter__'', ''isPrototypeOf'', ''propertyIsEnumerable'',
      ''toString'', ''valueOf'', ''__proto__'', ''toLocaleString'']"

datatype 'a property = Own 'a | Inherited | Undefined

definition getProp :: "(string \<times> 'a) list \<Rightarrow> string \<Rightarrow> 'a property" where
  "getProp obj k =
     (case map_of obj k of
        Some v \<Rightarrow> Own v
      | None \<Rightarrow> if k \<in> set objectPrototypeKeys then Inherited else Undefined)"

definition setProp :: "(string \<times> 'a) list \<Rightarrow> string \<Rightarrow> 'a \<Rightarrow> (string \<times> 'a) list" where
  "setProp obj k v =
     (if k \<in> fst ` set obj then map (\<lambda>(k', v'). if k' = k then (k', v) else (k', v')) obj
      else obj @ [(k, v)])"

text \<open>
  The two statements
  \<^verbatim>\<open>if (!tagMeta[currentTag]) tagMeta[currentTag] = []; tagMeta[currentTag].push(value);\<close>
  An own property holds an array, which is truthy even when empty. An inherited
  property is truthy too, so nothing is assigned, and it has no \<^verbatim>\<open>push\<close>: the call
  throws a TypeError.
\<close>

definition pushMeta ::
  "(string \<times> string list) list \<Rightarrow> string \<Rightarrow> string \<Rightarrow> exn + (string \<times> string list) list" where
  "pushMeta tagMeta currentTag v =
     (case getProp tagMeta currentTag of
        Undefined \<Rightarrow> Inr (setProp tagMeta currentTag [v])
      | Own vs \<Rightarrow> Inr (setProp tagMeta currentTag (vs @ [v]))
      | Inherited \<Rightarrow> Inl (TypeError ''tagMeta[currentTag].push is not a function''))"

text \<open>\<^verbatim>\<open>body.split(/\s+/).filter(Boolean)\<close>: the maximal runs of non-space characters.\<close>

fun splitWords :: "string \<Rightarrow> string \<Rightarrow> string list" where
  "splitWords cur [] = (if cur = [] then [] else [cur])"
| "splitWords cur (c # cs) =
     (if isSpace c then (if cur = [] then splitWords [] cs else cur # splitWords [] cs)
      else splitWords (cur @ [c]) cs)"

definition tokenize :: "string \<Rightarrow> string list" where
  "tokenize body = splitWords [] body"

fun joinWith :: "string \<Rightarrow> string list \<Rightarrow> string" where
  "joinWith sep [] = []"
| "joinWith sep [x] = x"
| "joinWith sep (x # y # ys) = x @ sep @ joinWith sep (y # ys)"

record scan =
  rawTags :: "string list"
  tagMeta :: "(string \<times> string list) list"
  noteParts :: "string list"
  currentTag :: "string option"

definition scanInit :: scan where
  "scanInit = \<lparr>rawTags = [], tagMeta = [], noteParts = [], currentTag = None\<rparr>"

text \<open>
  One round of the loop \<^verbatim>\<open>for (const token of rest)\<close>. For a token \<^verbatim>\<open>#name:meta\<close>,
  \<^verbatim>\<open>tagToken.split(':')\<close> puts the text before the first colon into \<^verbatim>\<open>tagNameRaw\<close>,
  \<^verbatim>\<open>metaParts\<close> is non-empty exactly when there is a colon, and
  \<^verbatim>\<open>metaParts.join(':')\<close> is the text after the first colon. \<^verbatim>\<open>currentTag\<close> is
  \<^verbatim>\<open>null\<close> or a non-empty name, so \<^verbatim>\<open>if (currentTag)\<close> tests for \<^verbatim>\<open>null\<close>.
\<close>

definition startsWithHash :: "string \<Rightarrow> bool" where
  "startsWithHash token = (case token of [] \<Rightarrow> False | c # _ \<Rightarrow> c = CHR ''#'')"

definition scanStep :: "scan \<Rightarrow> string \<Rightarrow> exn + scan" where
  "scanStep s token =
     (if startsWithHash token then
        (let tagToken = drop 1 token;
             tagName = trim (takeWhile (\<lambda>x. x \<noteq> CHR '':'') tagToken) in
         if tagName = [] then Inr (s\<lparr>currentTag := None\<rparr>)
         else
           let s1 = s\<lparr>rawTags := rawTags s @ [tagName], currentTag := Some tagName\<rparr> in
           if CHR '':'' \<in> set tagToken then
             (let metaValue = trim (drop 1 (dropWhile (\<lambda>x. x \<noteq> CHR '':'') tagToken)) in
              if metaValue \<noteq> [] then
                (case pushMeta (tagMeta s1) tagName metaValue of
                   Inl e \<Rightarrow> Inl e
                 | Inr tm \<Rightarrow> Inr (s1\<lparr>tagMeta := tm\<rparr>))
              else Inr s1)
           else Inr s1)
      else
        (case currentTag s of
           Some tag \<Rightarrow>
             (case pushMeta (tagMeta s) tag token of
                Inl e \<Rightarrow> Inl e
              | Inr tm \<Rightarrow> Inr (s\<lparr>tagMeta := tm\<rparr>))
         | None \<Rightarrow> Inr (s\<lparr>noteParts := noteParts s @ [token]\<rparr>)))"

fun scanTokens :: "scan \<Rightarrow> string list \<Rightarrow> exn + scan" where
  "scanTokens s [] = Inr s"
| "scanTokens s (token # rest) =
     (case scanStep s token of Inl e \<Rightarrow> Inl e | Inr s' \<Rightarrow> scanTokens s' rest)"

record parsed =
  dateToken :: string
  durationToken :: string
  tags :: "string list"
  tag_meta :: "(string \<times> string list) list"
  noteText :: string

text \<open>
  The object \<^verbatim>\<open>parseTimeLine\<close> returns for a parsed line; the fields \<open>tags\<close>,
  \<open>tag_meta\<close> and \<open>noteText\<close> are its \<^verbatim>\<open>rawTags\<close>, \<^verbatim>\<open>tagMeta\<close> and \<^verbatim>\<open>note\<close>.
  The three results of \<^verbatim>\<open>parseTimeLine\<close>: \<^verbatim>\<open>null\<close>, the object
  \<^verbatim>\<open>{ error: 'missing date or duration' }\<close>, and the parsed line.
\<close>

datatype parse_result = NotTimeLine | LineError string | Parsed parsed

definition isTimeMarker :: "string \<Rightarrow> bool" where
  "isTimeMarker trimmed = (toLowerCase (take 5 trimmed) = ''time:'')"

definition parseTimeLine :: "string \<Rightarrow> exn + parse_result" where
  "parseTimeLine line =
     (let trimmed = trim line in
      if \<not> isTimeMarker trimmed then Inr NotTimeLine
      else
        let body = dropWhile isSpace (drop 5 trimmed); tokens = tokenize body in
        case tokens of
          dateTokenRaw # durationTokenRaw # rest \<Rightarrow>
            (case scanTokens scanInit rest of
               Inl e \<Rightarrow> Inl e
             | Inr s \<Rightarrow>
                 Inr (Parsed \<lparr>dateToken = toLowerCase dateTokenRaw, durationToken = durationTokenRaw,
                   tags = rawTags s, tag_meta = tagMeta s, noteText = joinWith '' '' (noteParts s)\<rparr>))
        | _ \<Rightarrow> Inr (LineError ''missing date or duration''))"

section \<open>Tag index and alias normalizer (normalizeToken, loadTags, normalizeTags)\<close>

definition isLetterOrDigit :: "char \<Rightarrow> bool" where
  "isLetterOrDigit c = (c \<in> set (upperChars @ lowerChars) \<or> isDigit c)"

text \<open>
  \<^verbatim>\<open>token.trim().replace(/^#/, "").toLowerCase().replace(/[^\p{L}\p{N}]+/gu, "")\<close>
\<close>

definition normalizeToken :: "string \<Rightarrow> string" where
  "normalizeToken token =
     (let t = trim token;
          t1 = (if startsWithHash t then drop 1 t else t)
      in filter isLetterOrDigit (toLowerCase t1))"


record tagIndex =
  timezone :: string
  canonical :: "string list"
  aliasMap :: "string \<rightharpoonup> string"




text \<open>
  The loop of \<^verbatim>\<open>normalizeTags\<close>, with the list \<^verbatim>\<open>normalized\<close> built so far. A match
  is pushed when it is truthy (a non-empty key) and not yet in the list.
\<close>

fun normalizeTagsFrom :: "tagIndex \<Rightarrow> string list \<Rightarrow> string list \<Rightarrow> string list" where
  "normalizeTagsFrom idx normalized [] = normalized"
| "normalizeTagsFrom idx normalized (raw # rest) =
     (let normalizedKey = normalizeToken raw in
      if normalizedKey = [] then normalizeTagsFrom idx normalized rest
      else
        case aliasMap idx normalizedKey of
          None \<Rightarrow> normalizeTagsFrom idx normalized rest
        | Some match \<Rightarrow>
            if match \<noteq> [] \<and> match \<notin> set normalized
            then normalizeTagsFrom idx (normalized @ [match]) rest
            else normalizeTagsFrom idx normalized rest)"

definition normalizeTags :: "string list \<Rightarrow> tagIndex \<Rightarrow> string list" where
  "normalizeTags rawTagList idx = normalizeTagsFrom idx [] rawTagList"


section \<open>Date resolver (lib/date.js, resolveDateToken)\<close>

record dateParts =
  year :: int
  month :: int
  day :: int

subsection \<open>The day arithmetic of the JavaScript Date object\<close>

text \<open>
  \<^verbatim>\<open>addDays\<close> goes through \<^verbatim>\<open>Date.UTC\<close> and the \<^verbatim>\<open>getUTC...\<close> accessors. Their
  arithmetic is that of the language standard (day number and time within day, year
  number, month number, date number, MakeDay), taken here in whole days: every time
  value \<^verbatim>\<open>addDays\<close> handles is a multiple of the 86400000 milliseconds of a day. The
  standard's limit of 100 million days on either side of 1970 is not modelled.
\<close>

definition inLeapYear :: "int \<Rightarrow> bool" where
  "inLeapYear y = (y mod 4 = 0 \<and> (y mod 100 \<noteq> 0 \<or> y mod 400 = 0))"

definition daysInYear :: "int \<Rightarrow> int" where
  "daysInYear y = (if inLeapYear y then 366 else 365)"

definition dayFromYear :: "int \<Rightarrow> int" where
  "dayFromYear y =
     365 * (y - 1970) + (y - 1969) div 4 - (y - 1901) div 100 + (y - 1601) div 400"

lemma div_succ:
  fixes a n :: int
  assumes "0 < n"
  shows "(a + 1) div n = a div n + (if (a + 1) mod n = 0 then 1 else 0)"
proof (cases "a mod n + 1 < n")
  case True
  have e: "a + 1 = n * (a div n) + (a mod n + 1)" by simp
  have p: "0 \<le> a mod n + 1" using assms by (simp add: add_nonneg_nonneg)
  from int_div_pos_eq [OF e p True] have d: "(a + 1) div n = a div n" .
  from int_mod_pos_eq [OF e p True] have "(a + 1) mod n = a mod n + 1" .
  moreover have "0 \<le> a mod n" using assms by simp
  ultimately have "(a + 1) mod n \<noteq> 0" by linarith
  with d show ?thesis by simp
next
  case False
  moreover have "a mod n < n" using assms by simp
  ultimately have r: "a mod n + 1 = n" by linarith
  have "a + 1 = n * (a div n) + (a mod n + 1)" by simp
  with r have e: "a + 1 = n * (a div n + 1) + 0" by (simp add: algebra_simps)
  have z: "(0::int) \<le> 0" by simp
  from int_div_pos_eq [OF e z assms] have d: "(a + 1) div n = a div n + 1" .
  from int_mod_pos_eq [OF e z assms] have "(a + 1) mod n = 0" .
  with d show ?thesis by simp
qed

lemma mod_shift:
  fixes y n k :: int
  shows "(y - n * k) mod n = y mod n"
proof -
  have "(y - n * k) mod n = (y + n * (- k)) mod n" by simp
  also have "\<dots> = y mod n" by (rule mod_mult_self2)
  finally show ?thesis .
qed

lemma leap_divisors:
  fixes y :: int
  shows "y mod 100 = 0 \<Longrightarrow> y mod 4 = 0" and "y mod 400 = 0 \<Longrightarrow> y mod 100 = 0"
proof -
  have a: "y mod 100 mod 4 = y mod 4" by (rule mod_mod_cancel) simp
  have b: "y mod 400 mod 100 = y mod 100" by (rule mod_mod_cancel) simp
  show "y mod 100 = 0 \<Longrightarrow> y mod 4 = 0" using a by simp
  show "y mod 400 = 0 \<Longrightarrow> y mod 100 = 0" using b by simp
qed

lemma dayFromYear_step: "dayFromYear (y + 1) = dayFromYear y + daysInYear y"
proof -
  define q4 q100 q400 where "q4 = (y - 1969) div 4" and "q100 = (y - 1901) div 100"
    and "q400 = (y - 1601) div 400"
  define b4 b100 b400 where "b4 \<longleftrightarrow> y mod 4 = 0" and "b100 \<longleftrightarrow> y mod 100 = 0"
    and "b400 \<longleftrightarrow> y mod 400 = 0"
  have "(y - 1969 + 1) div 4 = q4 + (if (y - 1969 + 1) mod 4 = 0 then 1 else 0)"
    unfolding q4_def by (rule div_succ) simp
  moreover have "(y - 1969 + 1) mod 4 = y mod 4" using mod_shift [of y 4 492] by simp
  ultimately have d4: "(y + 1 - 1969) div 4 = q4 + (if b4 then 1 else 0)"
    by (simp add: b4_def add.commute)
  have "(y - 1901 + 1) div 100 = q100 + (if (y - 1901 + 1) mod 100 = 0 then 1 else 0)"
    unfolding q100_def by (rule div_succ) simp
  moreover have "(y - 1901 + 1) mod 100 = y mod 100" using mod_shift [of y 100 19] by simp
  ultimately have d100: "(y + 1 - 1901) div 100 = q100 + (if b100 then 1 else 0)"
    by (simp add: b100_def add.commute)
  have "(y - 1601 + 1) div 400 = q400 + (if (y - 1601 + 1) mod 400 = 0 then 1 else 0)"
    unfolding q400_def by (rule div_succ) simp
  moreover have "(y - 1601 + 1) mod 400 = y mod 400" using mod_shift [of y 400 4] by simp
  ultimately have d400: "(y + 1 - 1601) div 400 = q400 + (if b400 then 1 else 0)"
    by (simp add: b400_def add.commute)
  have imp: "b100 \<longrightarrow> b4" "b400 \<longrightarrow> b100"
    using leap_divisors [of y] by (simp_all add: b4_def b100_def b400_def)
  have l: "dayFromYear (y + 1) =
      365 * (y - 1969) + (q4 + (if b4 then 1 else 0)) - (q100 + (if b100 then 1 else 0))
        + (q400 + (if b400 then 1 else 0))"
    unfolding dayFromYear_def d4 d100 d400 by simp
  have r: "dayFromYear y + daysInYear y =
      365 * (y - 1970) + q4 - q100 + q400 + (if b4 \<and> (\<not> b100 \<or> b400) then 366 else 365)"
    unfolding dayFromYear_def daysInYear_def inLeapYear_def q4_def q100_def q400_def
      b4_def b100_def b400_def by simp
  show ?thesis unfolding l r using imp by (cases b4; cases b100; cases b400) simp_all
qed

text \<open>
  The year of a day number: the largest \<open>y\<close> with \<open>dayFromYear y \<le> d\<close>, found by
  counting down from a year that is not too small.
\<close>

function yearDown :: "int \<Rightarrow> int \<Rightarrow> int" where
  "yearDown d y = (if dayFromYear y \<le> d then y else yearDown d (y - 1))"
  by pat_completeness auto
termination
proof (relation "measure (\<lambda>(d, y). nat (dayFromYear y - d))")
  show "wf (measure (\<lambda>(d, y). nat (dayFromYear y - d)))" by simp
next
  fix d y :: int
  assume "\<not> dayFromYear y \<le> d"
  moreover have "dayFromYear (y - 1) < dayFromYear y"
  proof -
    have "dayFromYear (y - 1 + 1) = dayFromYear (y - 1) + daysInYear (y - 1)"
      by (rule dayFromYear_step)
    moreover have "0 < daysInYear (y - 1)" by (simp add: daysInYear_def)
    ultimately show ?thesis by simp
  qed
  ultimately show "((d, y - 1), (d, y)) \<in> measure (\<lambda>(d, y). nat (dayFromYear y - d))"
    by simp
qed

definition yearFromDay :: "int \<Rightarrow> int" where
  "yearFromDay d = yearDown d (if 0 \<le> d then 1971 + d div 365 else 1970)"

definition leapDays :: "int \<Rightarrow> int" where
  "leapDays y = (if inLeapYear y then 1 else 0)"

text \<open>
  The month number (from 0) and the date number of a day: the standard's tables on the
  day within the year \<open>w\<close>, with \<open>l\<close> the leap day of the year.
\<close>

definition monthWithin :: "int \<Rightarrow> int \<Rightarrow> int" where
  "monthWithin w l =
     (if w < 31 then 0
      else if w < 59 + l then 1
      else if w < 90 + l then 2
      else if w < 120 + l then 3
      else if w < 151 + l then 4
      else if w < 181 + l then 5
      else if w < 212 + l then 6
      else if w < 243 + l then 7
      else if w < 273 + l then 8
      else if w < 304 + l then 9
      else if w < 334 + l then 10
      else 11)"

definition dateWithin :: "int \<Rightarrow> int \<Rightarrow> int \<Rightarrow> int" where
  "dateWithin w l m =
     (if m = 0 then w + 1
      else if m = 1 then w - 30
      else if m = 2 then w - 58 - l
      else if m = 3 then w - 89 - l
      else if m = 4 then w - 119 - l
      else if m = 5 then w - 150 - l
      else if m = 6 then w - 180 - l
      else if m = 7 then w - 211 - l
      else if m = 8 then w - 242 - l
      else if m = 9 then w - 272 - l
      else if m = 10 then w - 303 - l
      else w - 333 - l)"

definition monthFromDay :: "int \<Rightarrow> int" where
  "monthFromDay d = (let y = yearFromDay d in monthWithin (d - dayFromYear y) (leapDays y))"

definition dateFromDay :: "int \<Rightarrow> int" where
  "dateFromDay d =
     (let y = yearFromDay d
      in dateWithin (d - dayFromYear y) (leapDays y) (monthFromDay d))"

text \<open>The day within the year on which month \<open>mn\<close> (from 0) begins.\<close>

definition monthStart :: "int \<Rightarrow> int \<Rightarrow> int" where
  "monthStart mn l =
     (if mn = 0 then 0
      else if mn = 1 then 31
      else if mn = 2 then 59 + l
      else if mn = 3 then 90 + l
      else if mn = 4 then 120 + l
      else if mn = 5 then 151 + l
      else if mn = 6 then 181 + l
      else if mn = 7 then 212 + l
      else if mn = 8 then 243 + l
      else if mn = 9 then 273 + l
      else if mn = 10 then 304 + l
      else 334 + l)"

definition makeDay :: "int \<Rightarrow> int \<Rightarrow> int \<Rightarrow> int" where
  "makeDay y m dt =
     (let ym = y + m div 12; mn = m mod 12
      in dayFromYear ym + monthStart mn (leapDays ym) + dt - 1)"

text \<open>\<^verbatim>\<open>Date.UTC(year, month, date)\<close>, in days: a year from 0 to 99 means 1900 + year.\<close>

definition dateUTC :: "int \<Rightarrow> int \<Rightarrow> int \<Rightarrow> int" where
  "dateUTC y m dt = makeDay (if 0 \<le> y \<and> y \<le> 99 then 1900 + y else y) m dt"

subsection \<open>lib/date.js\<close>

definition addDays :: "dateParts \<Rightarrow> int \<Rightarrow> dateParts" where
  "addDays parts deltaDays =
     (let base = dateUTC (year parts) (month parts - 1) (day parts);
          next = base + deltaDays
      in \<lparr>year = yearFromDay next, month = monthFromDay next + 1, day = dateFromDay next\<rparr>)"

text \<open>\<^verbatim>\<open>String(n)\<close> for an integer, and \<^verbatim>\<open>padStart(width, '0')\<close>.\<close>

definition digitChar :: "nat \<Rightarrow> char" where
  "digitChar n = ''0123456789'' ! n"

fun showNat :: "nat \<Rightarrow> string" where
  "showNat n = (if n < 10 then [digitChar n] else showNat (n div 10) @ [digitChar (n mod 10)])"

declare showNat.simps [simp del]

definition showInt :: "int \<Rightarrow> string" where
  "showInt i = (if i < 0 then CHR ''-'' # showNat (nat (- i)) else showNat (nat i))"

text \<open>
  For evaluation the digits are computed on integers, where division is fast; the two
  equations below say that this gives the same texts.
\<close>

function showPos :: "int \<Rightarrow> string" where
  "showPos i =
     (if i < 10 then [digitChar (nat i)] else showPos (i div 10) @ [digitChar (nat (i mod 10))])"
  by pat_completeness auto
termination
  by (relation "measure nat") simp_all

declare showPos.simps [simp del]

lemma showNat_code [code]: "showNat n = showPos (int n)"
proof (induction n rule: showNat.induct)
  case (1 n)
  show ?case
  proof (cases "n < 10")
    case True
    then show ?thesis by (simp add: showNat.simps [of n] showPos.simps [of "int n"])
  next
    case False
    with 1 have "showNat (n div 10) = showPos (int (n div 10))" by simp
    with False show ?thesis
      by (simp add: showNat.simps [of n] showPos.simps [of "int n"] zdiv_int zmod_int nat_mod_distrib)
  qed
qed

lemma showInt_code [code]:
  "showInt i = (if i < 0 then CHR ''-'' # showPos (- i) else showPos i)"
  by (simp add: showInt_def showNat_code)

definition padStart :: "nat \<Rightarrow> string \<Rightarrow> string" where
  "padStart width s = replicate (width - length s) (CHR ''0'') @ s"

definition datePartsToString :: "dateParts \<Rightarrow> string" where
  "datePartsToString parts =
     (let y = padStart 4 (showInt (year parts));
          m = padStart 2 (showInt (month parts));
          d = padStart 2 (showInt (day parts))
      in y @ ''-'' @ m @ ''-'' @ d)"

text \<open>\<^verbatim>\<open>dateStr.split('-')\<close>\<close>

fun splitOn :: "char \<Rightarrow> string \<Rightarrow> string \<Rightarrow> string list" where
  "splitOn sep cur [] = [cur]"
| "splitOn sep cur (c # cs) =
     (if c = sep then cur # splitOn sep [] cs else splitOn sep (cur @ [c]) cs)"

text \<open>The test \<^verbatim>\<open>/^\d{4}-\d{2}-\d{2}$/.exec(dateStr)\<close>.\<close>

definition dateMatch :: "string \<Rightarrow> bool" where
  "dateMatch dateStr =
     (case dateStr of
        [y1, y2, y3, y4, s1, m1, m2, s2, d1, d2] \<Rightarrow>
          list_all isDigit [y1, y2, y3, y4, m1, m2, d1, d2] \<and> s1 = CHR ''-'' \<and> s2 = CHR ''-''
      | _ \<Rightarrow> False)"

definition parseDateString :: "string \<Rightarrow> dateParts option" where
  "parseDateString dateStr =
     (if \<not> dateMatch dateStr then None
      else
        case map (\<lambda>s. int (digitsVal s)) (splitOn (CHR ''-'') [] dateStr) of
          y # m # d # _ \<Rightarrow> Some \<lparr>year = y, month = m, day = d\<rparr>
        | _ \<Rightarrow> None)"

text \<open>
  \<^verbatim>\<open>resolveDateToken\<close>. The token is \<^verbatim>\<open>undefined\<close> (\<open>None\<close>) when the line has fewer
  than two tokens. \<^verbatim>\<open>getTzParts\<close>, the projection of the commit timestamp into a time zone
  by \<^verbatim>\<open>Intl.DateTimeFormat\<close>, is a parameter.
\<close>

definition resolveDateToken ::
  "(string \<Rightarrow> string \<Rightarrow> dateParts) \<Rightarrow> string option \<Rightarrow> string \<Rightarrow> string \<Rightarrow> string option" where
  "resolveDateToken getTzParts token commitDate timeZone =
     (case token of
        None \<Rightarrow> None
      | Some t \<Rightarrow>
          if t = [] then None
          else if t = ''today'' then Some (datePartsToString (getTzParts commitDate timeZone))
          else if t = ''yesterday'' then
            (let parts = getTzParts commitDate timeZone
             in Some (datePartsToString (addDays parts (- 1))))
          else
            case parseDateString t of
              Some parsedDate \<Rightarrow> Some (datePartsToString parsedDate)
            | None \<Rightarrow> None)"

subsection \<open>The calendar, in the words of the specification\<close>

definition daysInMonth :: "int \<Rightarrow> int \<Rightarrow> int" where
  "daysInMonth y m =
     (if m = 2 then 28 + leapDays y
      else if m = 4 \<or> m = 6 \<or> m = 9 \<or> m = 11 then 30
      else 31)"

definition validDate :: "dateParts \<Rightarrow> bool" where
  "validDate p =
     (1 \<le> month p \<and> month p \<le> 12 \<and> 1 \<le> day p \<and> day p \<le> daysInMonth (year p) (month p) \<and>
      100 \<le> year p \<and> year p \<le> 275759)"

definition previousDay :: "dateParts \<Rightarrow> dateParts" where
  "previousDay p =
     (if 1 < day p then p\<lparr>day := day p - 1\<rparr>
      else if 1 < month p then p\<lparr>month := month p - 1, day := daysInMonth (year p) (month p - 1)\<rparr>
      else \<lparr>year = year p - 1, month = 12, day = 31\<rparr>)"

definition isDateShape :: "string \<Rightarrow> bool" where
  "isDateShape token =
     (\<exists>y m d. token = y @ ''-'' @ m @ ''-'' @ d \<and> length y = 4 \<and> length m = 2 \<and> length d = 2 \<and>
        list_all isDigit y \<and> list_all isDigit m \<and> list_all isDigit d)"

section \<open>Classifier fallback (normalizeTagsLLM)\<close>

text \<open>
  A JavaScript value as JSON gives it, with \<^verbatim>\<open>undefined\<close> for a property that is
  absent. Objects list their properties in order, each key once.
\<close>

datatype jsval =
  JUndefined
  | JNull
  | JBool bool
  | JNum rat
  | JStr string
  | JArr "jsval list"
  | JObj "(string \<times> jsval) list"

fun truthy :: "jsval \<Rightarrow> bool" where
  "truthy JUndefined = False"
| "truthy JNull = False"
| "truthy (JBool b) = b"
| "truthy (JNum n) = (n \<noteq> 0)"
| "truthy (JStr s) = (s \<noteq> [])"
| "truthy (JArr xs) = True"
| "truthy (JObj fs) = True"

text \<open>\<^verbatim>\<open>typeof v === "object"\<close> for a truthy value: an object or an array.\<close>

fun isObject :: "jsval \<Rightarrow> bool" where
  "isObject (JArr xs) = True"
| "isObject (JObj fs) = True"
| "isObject v = False"

text \<open>
  Reading one of the properties \<^verbatim>\<open>primary\<close>, \<^verbatim>\<open>secondary\<close>, \<^verbatim>\<open>confidence\<close>,
  \<^verbatim>\<open>new_alias_suggestions\<close> of a truthy value; none of them is inherited.
\<close>

fun getField :: "jsval \<Rightarrow> string \<Rightarrow> jsval" where
  "getField (JObj fs) k = (case map_of fs k of Some v \<Rightarrow> v | None \<Rightarrow> JUndefined)"
| "getField v k = JUndefined"

text \<open>\<^verbatim>\<open>canonical.includes(v)\<close>: the value is a string and one of the canonical keys.\<close>

fun arrayIncludes :: "string list \<Rightarrow> jsval \<Rightarrow> bool" where
  "arrayIncludes keys (JStr s) = (s \<in> set keys)"
| "arrayIncludes keys v = False"

definition sanitizeResult :: "jsval \<Rightarrow> string list \<Rightarrow> jsval option" where
  "sanitizeResult result canonicalKeys =
     (if \<not> truthy result \<or> \<not> isObject result then None
      else
        let primaryV = getField result ''primary'';
            secondaryV = getField result ''secondary'';
            confidenceV = getField result ''confidence'';
            suggestionsV = getField result ''new_alias_suggestions''
        in
          if \<not> arrayIncludes canonicalKeys primaryV then None
          else
            let cleanSecondary =
                  (case secondaryV of
                     JArr xs \<Rightarrow> filter (\<lambda>tag. arrayIncludes canonicalKeys tag \<and> tag \<noteq> primaryV) xs
                   | _ \<Rightarrow> []);
                cleanConfidence =
                  (case confidenceV of
                     JNum c \<Rightarrow> if 0 \<le> c \<and> c \<le> 1 then JNum c else JNum 0
                   | _ \<Rightarrow> JNum 0)
            in Some (JObj [(''primary'', primaryV), (''secondary'', JArr cleanSecondary),
                 (''confidence'', cleanConfidence), (''new_alias_suggestions'', suggestionsV)]))"

text \<open>
  The cache key \<^verbatim>\<open>JSON.stringify({ rawTags, note })\<close>: the text
  \<^verbatim>\<open>{"rawTags":[...],"note":"..."}\<close> with every string quoted and escaped.
\<close>

definition hexDigit :: "nat \<Rightarrow> char" where
  "hexDigit n = ''0123456789abcdef'' ! n"

definition escapeChar :: "char \<Rightarrow> string" where
  "escapeChar c =
     (if c = CHR 0x22 then [CHR 0x5C, CHR 0x22]
      else if c = CHR 0x5C then [CHR 0x5C, CHR 0x5C]
      else if c = CHR 0x08 then [CHR 0x5C, CHR ''b'']
      else if c = CHR 0x0C then [CHR 0x5C, CHR ''f'']
      else if c = CHR 0x0A then [CHR 0x5C, CHR ''n'']
      else if c = CHR 0x0D then [CHR 0x5C, CHR ''r'']
      else if c = CHR 0x09 then [CHR 0x5C, CHR ''t'']
      else if (of_char c :: nat) < 32 then
        [CHR 0x5C, CHR ''u'', CHR ''0'', CHR ''0'', hexDigit (of_char c div 16), hexDigit (of_char c mod 16)]
      else [c])"

definition quote :: "string \<Rightarrow> string" where
  "quote s = [CHR 0x22] @ concat (map escapeChar s) @ [CHR 0x22]"

definition cacheKeyOf :: "string list \<Rightarrow> string \<Rightarrow> string" where
  "cacheKeyOf rawTagList noteString =
     ''{'' @ quote ''rawTags'' @ '':['' @ joinWith '','' (map quote rawTagList) @ ''],''
       @ quote ''note'' @ '':'' @ quote noteString @ ''}''"

text \<open>
  What the classifier collaborator is asked, and what comes back from
  \<^verbatim>\<open>normalizeWithGemini\<close>: the request fails (no connection, or a status from 400 on),
  the payload is not the JSON expected (\<^verbatim>\<open>JSON.parse\<close> throws, or the text is missing),
  or the payload parses to a value. The text is the message of the error thrown.
\<close>

record request =
  reqCanonical :: "string list"
  reqRawTags :: "string list"
  reqNote :: string
  reqModel :: string

datatype reply = TransportFailure string | NonJsonPayload string | Payload jsval

text \<open>
  The documents the program keeps between runs, each read and written as a whole: the
  day stores by date, the error log, the watermark, the classifier cache by key, the
  suggestion ledger by canonical key. \<open>requests\<close> is not a document: it lists the
  requests sent to the classifier so far, so that they can be counted.
\<close>

text \<open>
  The \<^verbatim>\<open>normalized\<close> object of an entry; \<open>methodName\<close> is its field \<^verbatim>\<open>method\<close>.
\<close>

record normalizedTag =
  primary :: jsval
  secondary :: jsval
  confidence :: jsval
  methodName :: string

record entry =
  entryId :: string
  atStamp :: string
  hours :: rat
  raw :: parsed
  normalized :: normalizedTag
  sourceRepo :: string
  sourceCommit :: string

record dayStore =
  storeDate :: string
  storeTimezone :: string
  entries :: "entry list"

record errorRecord =
  errorId :: string
  errorCommit :: string
  errorLine :: string
  reason :: string

record watermark =
  last_processed :: "string option"
  recent_commits :: "string list"

record disk =
  dayFiles :: "string \<rightharpoonup> dayStore"
  errorsFile :: "errorRecord list"
  stateFile :: watermark
  cacheFile :: "string \<rightharpoonup> jsval"
  ledger :: "(string \<times> string list) list"
  requests :: "request list"

text \<open>
  The environment of a run: configuration, and the two collaborators reached through the
  platform. \<open>gemini n r\<close> is the classifier's answer to request \<open>r\<close> when \<open>n\<close> requests
  went before it; \<open>getTzParts\<close> projects a commit timestamp into a time zone.
\<close>

record env =
  tagIdx :: tagIndex
  repoName :: string
  llmEnabled :: bool
  apiKeySet :: bool
  geminiModel :: string
  maxRecentCommits :: "int option"
  getTzParts :: "string \<Rightarrow> string \<Rightarrow> dateParts"
  gemini :: "nat \<Rightarrow> request \<Rightarrow> reply"

text \<open>
  \<^verbatim>\<open>appendSuggestions\<close>, on a ledger that maps each key to a list of strings. The
  ledger is a plain object: for a key that names an inherited property,
  \<^verbatim>\<open>new Set(suggestions[key] || [])\<close> is given a function and throws.
\<close>

fun addUnique :: "string list \<Rightarrow> string list \<Rightarrow> string list" where
  "addUnique seen [] = seen"
| "addUnique seen (x # xs) = addUnique (if x \<in> set seen then seen else seen @ [x]) xs"

fun suggestedStrings :: "jsval list \<Rightarrow> string list" where
  "suggestedStrings [] = []"
| "suggestedStrings (JStr s # vs) =
     (if trim s \<noteq> [] then trim s # suggestedStrings vs else suggestedStrings vs)"
| "suggestedStrings (v # vs) = suggestedStrings vs"

fun objectEntries :: "jsval \<Rightarrow> (string \<times> jsval) list" where
  "objectEntries (JObj fs) = fs"
| "objectEntries (JArr xs) = zip (map showNat [0..<length xs]) xs"
| "objectEntries v = []"

fun mergeSuggestions ::
  "(string \<times> string list) list \<Rightarrow> (string \<times> jsval) list \<Rightarrow> exn + (string \<times> string list) list" where
  "mergeSuggestions suggestions [] = Inr suggestions"
| "mergeSuggestions suggestions ((key, JArr vals) # rest) =
     (case getProp suggestions key of
        Inherited \<Rightarrow> Inl (TypeError ''suggestions[key] is not iterable'')
      | Own old \<Rightarrow>
          mergeSuggestions
            (setProp suggestions key (addUnique (addUnique [] old) (suggestedStrings vals))) rest
      | Undefined \<Rightarrow>
          mergeSuggestions (setProp suggestions key (addUnique [] (suggestedStrings vals))) rest)"
| "mergeSuggestions suggestions ((key, v) # rest) = mergeSuggestions suggestions rest"

definition appendSuggestions ::
  "(string \<times> string list) list \<Rightarrow> jsval \<Rightarrow> exn + (string \<times> string list) list" where
  "appendSuggestions existing newSuggestions =
     (if \<not> truthy newSuggestions \<or> \<not> isObject newSuggestions then Inr existing
      else mergeSuggestions existing (objectEntries newSuggestions))"

text \<open>
  What \<^verbatim>\<open>JSON.stringify\<close> keeps of the sanitized result when the cache is saved: a
  property whose value is \<^verbatim>\<open>undefined\<close> is left out.
\<close>

fun stored :: "jsval \<Rightarrow> jsval" where
  "stored (JObj fs) = JObj (filter (\<lambda>(k, v). v \<noteq> JUndefined) fs)"
| "stored v = v"

text \<open>
  \<^verbatim>\<open>cache[cacheKey]\<close> (\<^verbatim>\<open>undefined\<close> when the key is absent), and the request
  \<^verbatim>\<open>normalizeWithGemini\<close> sends.
\<close>

definition cachedValue :: "'a disk_scheme \<Rightarrow> string list \<Rightarrow> string \<Rightarrow> jsval" where
  "cachedValue d rawTagList noteString =
     (case cacheFile d (cacheKeyOf rawTagList noteString) of None \<Rightarrow> JUndefined | Some v \<Rightarrow> v)"

definition requestFor :: "env \<Rightarrow> string list \<Rightarrow> string list \<Rightarrow> string \<Rightarrow> request" where
  "requestFor e canonicalKeys rawTagList noteString =
     \<lparr>reqCanonical = canonicalKeys, reqRawTags = rawTagList, reqNote = noteString,
      reqModel = geminiModel e\<rparr>"

text \<open>
  \<^verbatim>\<open>normalizeTagsLLM\<close>: the value returned (\<open>JNull\<close> for \<^verbatim>\<open>null\<close>) or the exception
  thrown, and the documents afterwards.
\<close>

definition normalizeTagsLLM ::
  "env \<Rightarrow> string list \<Rightarrow> string list \<Rightarrow> string \<Rightarrow> 'a disk_scheme \<Rightarrow> (exn + jsval) \<times> 'a disk_scheme" where
  "normalizeTagsLLM e canonicalKeys rawTagList noteString d =
     (let cacheKey = cacheKeyOf rawTagList noteString;
          cached = cachedValue d rawTagList noteString
      in
        if truthy cached then (Inr cached, d)
        else if \<not> apiKeySet e then (Inl (Error ''GEMINI_API_KEY is not set''), d)
        else
          let req = requestFor e canonicalKeys rawTagList noteString;
              d1 = d\<lparr>requests := requests d @ [req]\<rparr>
          in
            case gemini e (length (requests d)) req of
              TransportFailure m \<Rightarrow> (Inl (Error m), d1)
            | NonJsonPayload m \<Rightarrow> (Inl (SyntaxError m), d1)
            | Payload rawResult \<Rightarrow>
                (case sanitizeResult rawResult canonicalKeys of
                   None \<Rightarrow> (Inr JNull, d1)
                 | Some sanitized \<Rightarrow>
                     let d2 = d1\<lparr>cacheFile := (cacheFile d1)(cacheKey \<mapsto> stored sanitized)\<rparr>
                     in
                       case appendSuggestions (ledger d2)
                              (getField sanitized ''new_alias_suggestions'') of
                         Inl ex \<Rightarrow> (Inl ex, d2)
                       | Inr suggestions \<Rightarrow> (Inr sanitized, d2\<lparr>ledger := suggestions\<rparr>)))"

section \<open>Ingestion coordinator (main)\<close>

record commit =
  sha :: string
  dateStr :: string
  body :: string

text \<open>
  The state of a run: the documents, the error list held in memory (read from the error
  log at the start, written back at the end) and the three counters of the summary.
\<close>

record run = disk +
  errors :: "errorRecord list"
  addedCount :: nat
  skippedCount :: nat
  errorCount :: nat

text \<open>\<^verbatim>\<open>commit.body.split(/\r?\n/)\<close>\<close>

fun splitLines :: "string \<Rightarrow> string \<Rightarrow> string list" where
  "splitLines cur [] = [cur]"
| "splitLines cur [c] = (if c = CHR 0x0A then [cur, []] else [cur @ [c]])"
| "splitLines cur (c # c' # cs) =
     (if c = CHR 0x0A then cur # splitLines [] (c' # cs)
      else if c = CHR 0x0D \<and> c' = CHR 0x0A then cur # splitLines [] cs
      else splitLines (cur @ [c]) (c' # cs))"

text \<open>The identity \<^verbatim>\<open>`sha:${commit.sha}:${timeLineIndex}`\<close>.\<close>

definition makeId :: "string \<Rightarrow> nat \<Rightarrow> string" where
  "makeId commitSha timeLineIndex = ''sha:'' @ commitSha @ '':'' @ showNat timeLineIndex"

definition recordError :: "errorRecord \<Rightarrow> 'a run_scheme \<Rightarrow> 'a run_scheme" where
  "recordError details st = st\<lparr>errors := errors st @ [details]\<rparr>"

text \<open>
  What happened to a line, with the identity it was given: the line is no time line
  (\<^verbatim>\<open>continue\<close> before an identity is assigned), it was recorded as an error, it was
  skipped since its identity is in the day store, or it was added.
\<close>

datatype outcome = Ignored | Errored string | Skipped string | Added string

fun outcomeId :: "outcome \<Rightarrow> string option" where
  "outcomeId Ignored = None"
| "outcomeId (Errored i) = Some i"
| "outcomeId (Skipped i) = Some i"
| "outcomeId (Added i) = Some i"

text \<open>\<^verbatim>\<open>tagIndex.timezone || TZ\<close>\<close>

definition timeZoneOf :: "env \<Rightarrow> string" where
  "timeZoneOf e = (if timezone (tagIdx e) \<noteq> [] then timezone (tagIdx e) else ''Asia/Tokyo'')"

text \<open>
  The alias stage of \<^verbatim>\<open>main\<close>: \<^verbatim>\<open>primary\<close>, \<^verbatim>\<open>secondary\<close>, \<^verbatim>\<open>confidence\<close> and
  \<^verbatim>\<open>method\<close> as set before the classifier is considered.
\<close>

definition aliasStage :: "string list \<Rightarrow> normalizedTag" where
  "aliasStage normalizedTags =
     \<lparr>primary = (case normalizedTags of [] \<Rightarrow> JStr ''uncategorized'' | t # _ \<Rightarrow> JStr t),
      secondary = JArr (map JStr (drop 1 normalizedTags)),
      confidence = JNum (if normalizedTags \<noteq> [] then 1 else 0),
      methodName = (if normalizedTags \<noteq> [] then ''alias'' else ''fallback'')\<rparr>"

text \<open>
  The classifier stage: the block \<^verbatim>\<open>if (normalizedTags.length === 0 && llmEnabled)\<close>
  with its \<^verbatim>\<open>try\<close> and \<^verbatim>\<open>catch\<close>.
\<close>

definition classifierStage ::
  "env \<Rightarrow> string \<Rightarrow> string \<Rightarrow> string \<Rightarrow> parsed \<Rightarrow> string list \<Rightarrow> 'a run_scheme \<Rightarrow>
     normalizedTag \<times> 'a run_scheme" where
  "classifierStage e ident commitSha line p normalizedTags st =
     (if normalizedTags = [] \<and> llmEnabled e then
        (case normalizeTagsLLM e (canonical (tagIdx e)) (tags p) (noteText p) st of
           (Inr llmResult, st1) \<Rightarrow>
             if truthy llmResult then
               (\<lparr>primary = getField llmResult ''primary'',
                 secondary = (let s = getField llmResult ''secondary'' in
                              if truthy s then s else JArr []),
                 confidence = (let c = getField llmResult ''confidence'' in
                               if truthy c then c else JNum 0),
                 methodName = ''llm''\<rparr>, st1)
             else (aliasStage normalizedTags, st1)
         | (Inl ex, st1) \<Rightarrow>
             (aliasStage normalizedTags,
              recordError \<lparr>errorId = ident, errorCommit = commitSha, errorLine = line,
                reason = ''llm_error:'' @ message ex\<rparr> st1))
      else (aliasStage normalizedTags, st))"

text \<open>
  The check of the day store and the write: \<^verbatim>\<open>loadJsonIfExists\<close>, the test
  \<^verbatim>\<open>daily.entries.some((entry) => entry.id === id)\<close>, and \<^verbatim>\<open>push\<close>, \<^verbatim>\<open>writeJson\<close>.
\<close>

definition loadDaily :: "'a run_scheme \<Rightarrow> string \<Rightarrow> string \<Rightarrow> dayStore" where
  "loadDaily st dateString tz =
     (case dayFiles st dateString of
        None \<Rightarrow> \<lparr>storeDate = dateString, storeTimezone = tz, entries = []\<rparr>
      | Some daily \<Rightarrow> daily)"

definition storeStage :: "string \<Rightarrow> entry \<Rightarrow> string \<Rightarrow> 'a run_scheme \<Rightarrow> outcome \<times> 'a run_scheme" where
  "storeStage dateString en tz st =
     (let daily = loadDaily st dateString tz in
      if list_ex (\<lambda>x. entryId x = entryId en) (entries daily)
      then (Skipped (entryId en), st\<lparr>skippedCount := skippedCount st + 1\<rparr>)
      else
        (Added (entryId en),
         st\<lparr>dayFiles := (dayFiles st)(dateString \<mapsto> daily\<lparr>entries := entries daily @ [en]\<rparr>),
            addedCount := addedCount st + 1\<rparr>))"

text \<open>
  One round of the loop over the lines of a commit: the new value of
  \<^verbatim>\<open>timeLineIndex\<close>, what happened to the line, and the state. A line with fewer than
  two tokens has no date token (\<^verbatim>\<open>undefined\<close>), and \<^verbatim>\<open>parseDuration\<close> reads its
  missing duration token as the text \<^verbatim>\<open>undefined\<close>; had such a line a date and a
  duration, \<^verbatim>\<open>normalizeTags\<close> would throw on its missing tags.
\<close>

definition processLine ::
  "env \<Rightarrow> commit \<Rightarrow> nat \<Rightarrow> string \<Rightarrow> 'a run_scheme \<Rightarrow> exn + (nat \<times> outcome \<times> 'a run_scheme)" where
  "processLine e c timeLineIndex line st =
     (case parseTimeLine line of
        Inl ex \<Rightarrow> Inl ex
      | Inr NotTimeLine \<Rightarrow> Inr (timeLineIndex, Ignored, st)
      | Inr result \<Rightarrow>
          let ident = makeId (sha c) timeLineIndex;
              dateString = resolveDateToken (getTzParts e)
                (case result of Parsed p \<Rightarrow> Some (dateToken p) | _ \<Rightarrow> None)
                (dateStr c) (timeZoneOf e);
              hoursV = parseDuration
                (case result of Parsed p \<Rightarrow> durationToken p | _ \<Rightarrow> ''undefined'')
          in
            case (dateString, hoursV) of
              (Some ds, Some h) \<Rightarrow>
                (case result of
                   Parsed p \<Rightarrow>
                     let normalizedTags = normalizeTags (tags p) (tagIdx e);
                         (nt, st1) = classifierStage e ident (sha c) line p normalizedTags st;
                         en = \<lparr>entryId = ident, atStamp = dateStr c, hours = h, raw = p,
                                normalized = nt, sourceRepo = repoName e, sourceCommit = sha c\<rparr>;
                         (out, st2) = storeStage ds en (timeZoneOf e) st1
                     in Inr (timeLineIndex + 1, out, st2)
                 | _ \<Rightarrow> Inl (TypeError ''rawTags is not iterable''))
            | _ \<Rightarrow>
                Inr (timeLineIndex + 1, Errored ident,
                  (recordError \<lparr>errorId = ident, errorCommit = sha c, errorLine = line,
                     reason = ''invalid date or duration''\<rparr> st)\<lparr>errorCount := errorCount st + 1\<rparr>))"

text \<open>
  The loop over the lines of one commit, and the loop over the commits. An exception
  ends the run: nothing is returned, and the watermark and the error log are not
  written.
\<close>

fun processLines ::
  "env \<Rightarrow> commit \<Rightarrow> nat \<Rightarrow> string list \<Rightarrow> 'a run_scheme \<Rightarrow> exn + (outcome list \<times> 'a run_scheme)" where
  "processLines e c timeLineIndex [] st = Inr ([], st)"
| "processLines e c timeLineIndex (line # rest) st =
     (case processLine e c timeLineIndex line st of
        Inl ex \<Rightarrow> Inl ex
      | Inr (timeLineIndex', out, st1) \<Rightarrow>
          (case processLines e c timeLineIndex' rest st1 of
             Inl ex \<Rightarrow> Inl ex
           | Inr (outs, st2) \<Rightarrow> Inr (out # outs, st2)))"

fun processCommits ::
  "env \<Rightarrow> commit list \<Rightarrow> 'a run_scheme \<Rightarrow> exn + (outcome list list \<times> 'a run_scheme)" where
  "processCommits e [] st = Inr ([], st)"
| "processCommits e (c # cs) st =
     (case processLines e c 0 (splitLines [] (body c)) st of
        Inl ex \<Rightarrow> Inl ex
      | Inr (outs, st1) \<Rightarrow>
          (case processCommits e cs st1 of
             Inl ex \<Rightarrow> Inl ex
           | Inr (outss, st2) \<Rightarrow> Inr (outs # outss, st2)))"

text \<open>
  The log reader: all history, the commits after a given one (the query may fail), the
  most recent ones, and the head commit (which may be unknown).
\<close>

record logReader =
  logAll :: "commit list"
  logSince :: "string \<Rightarrow> commit list option"
  logRecent :: "commit list"
  headSha :: "string option"

text \<open>\<^verbatim>\<open>addCommits\<close>: into the map by commit identity, the first occurrence wins.\<close>

fun addCommits :: "commit list \<Rightarrow> commit list \<Rightarrow> commit list" where
  "addCommits acc [] = acc"
| "addCommits acc (c # cs) =
     addCommits (if sha c \<in> sha ` set acc then acc else acc @ [c]) cs"

definition recentEnabled :: "env \<Rightarrow> bool" where
  "recentEnabled e = (case maxRecentCommits e of None \<Rightarrow> False | Some n \<Rightarrow> 0 < n)"

definition truthyString :: "string option \<Rightarrow> bool" where
  "truthyString s = (case s of None \<Rightarrow> False | Some t \<Rightarrow> t \<noteq> [])"

definition selectCommits :: "env \<Rightarrow> logReader \<Rightarrow> watermark \<Rightarrow> commit list" where
  "selectCommits e reader wm =
     (let first =
            (if truthyString (last_processed wm) then
               (case logSince reader (the (last_processed wm)) of
                  Some sinceLast \<Rightarrow> sinceLast
                | None \<Rightarrow> logAll reader)
             else logAll reader);
          commitsBySha = addCommits [] first
      in if recentEnabled e then addCommits commitsBySha (logRecent reader) else commitsBySha)"

definition startRun :: "disk \<Rightarrow> run" where
  "startRun d =
     disk.extend d \<lparr>errors = errorsFile d, addedCount = 0, skippedCount = 0, errorCount = 0\<rparr>"

definition finishRun :: "env \<Rightarrow> logReader \<Rightarrow> run \<Rightarrow> run" where
  "finishRun e reader st =
     st\<lparr>stateFile :=
          \<lparr>last_processed =
             (if truthyString (headSha reader) then headSha reader
              else if truthyString (last_processed (stateFile st)) then last_processed (stateFile st)
              else None),
           recent_commits = (if recentEnabled e then map sha (logRecent reader) else [])\<rparr>,
        errorsFile := errors st\<rparr>"

definition main :: "env \<Rightarrow> logReader \<Rightarrow> disk \<Rightarrow> exn + (outcome list list \<times> run)" where
  "main e reader d =
     (case processCommits e (selectCommits e reader (stateFile d)) (startRun d) of
        Inl ex \<Rightarrow> Inl ex
      | Inr (outss, st) \<Rightarrow> Inr (outss, finishRun e reader st))"

subsection \<open>Words for the statements about a run\<close>



text \<open>An entry with identity \<open>i\<close> is in the day store of \<open>dateString\<close>.\<close>

definition hasId :: "'a run_scheme \<Rightarrow> string \<Rightarrow> string \<Rightarrow> bool" where
  "hasId st dateString i =
     (case dayFiles st dateString of
        None \<Rightarrow> False
      | Some daily \<Rightarrow> list_ex (\<lambda>x. entryId x = i) (entries daily))"




text \<open>
  A line that reaches the normalization stages: it parses, and its date and duration
  resolve to \<open>ds\<close> and \<open>h\<close>.
\<close>

definition reaches ::
  "env \<Rightarrow> commit \<Rightarrow> string \<Rightarrow> parsed \<Rightarrow> string \<Rightarrow> rat \<Rightarrow> bool" where
  "reaches e c line p ds h =
     (parseTimeLine line = Inr (Parsed p) \<and>
      resolveDateToken (getTzParts e) (Some (dateToken p)) (dateStr c) (timeZoneOf e) = Some ds \<and>
      parseDuration (durationToken p) = Some h)"

text \<open>
  The identities the lines of a commit are given, as a function of the commit identity,
  the counter and the lines alone: a line that carries the \<^verbatim>\<open>time:\<close> marker takes the
  counter's value and moves the counter on, every other line takes none.
\<close>

definition isTimeLine :: "string \<Rightarrow> bool" where
  "isTimeLine line = isTimeMarker (trim line)"

fun lineIds :: "string \<Rightarrow> nat \<Rightarrow> string list \<Rightarrow> string option list" where
  "lineIds commitSha k [] = []"
| "lineIds commitSha k (line # rest) =
     (if isTimeLine line then Some (makeId commitSha k) # lineIds commitSha (k + 1) rest
      else None # lineIds commitSha k rest)"

text \<open>
  The day store and identity each line of a commit is bound for, for the lines that
  reach the day-store check.
\<close>

definition lineTarget :: "env \<Rightarrow> commit \<Rightarrow> nat \<Rightarrow> string \<Rightarrow> (string \<times> string) option" where
  "lineTarget e c k line =
     (case parseTimeLine line of
        Inr (Parsed p) \<Rightarrow>
          (case (resolveDateToken (getTzParts e) (Some (dateToken p)) (dateStr c) (timeZoneOf e),
                 parseDuration (durationToken p)) of
             (Some ds, Some h) \<Rightarrow> Some (ds, makeId (sha c) k)
           | _ \<Rightarrow> None)
      | _ \<Rightarrow> None)"

fun lineTargets :: "env \<Rightarrow> commit \<Rightarrow> nat \<Rightarrow> string list \<Rightarrow> (string \<times> string) list" where
  "lineTargets e c k [] = []"
| "lineTargets e c k (line # rest) =
     (case lineTarget e c k line of None \<Rightarrow> [] | Some t \<Rightarrow> [t])
       @ lineTargets e c (if isTimeLine line then k + 1 else k) rest"

definition commitTargets :: "env \<Rightarrow> commit \<Rightarrow> (string \<times> string) list" where
  "commitTargets e c = lineTargets e c 0 (splitLines [] (body c))"







section \<open>A small configuration for the examples\<close>




definition exampleCommit :: commit where
  "exampleCommit =
     \<lparr>sha = ''abc'', dateStr = ''2026-03-01T10:00:00+09:00'',
      body = ''notes'' @ [CHR 0x0A] @ ''time: today 2h #job x'' @ [CHR 0x0D, CHR 0x0A]
        @ ''time: today'' @ [CHR 0x0A] @ ''time: yesterday 30m #nope read''\<rparr>"

definition exampleReader :: logReader where
  "exampleReader =
     \<lparr>logAll = [exampleCommit], logSince = (\<lambda>x. Some []), logRecent = [exampleCommit],
      headSha = Some ''abc''\<rparr>"






section \<open>Duration parser: proofs\<close>






















section \<open>Line grammar parser: proofs\<close>

lemma map_of_setProp:
  "map_of (setProp obj k v) k' = (if k' = k then Some v else map_of obj k')"
proof (cases "k \<in> fst ` set obj")
  case True
  have "map_of (map (\<lambda>(a, b). if a = k then (a, v) else (a, b)) obj) k' =
        (if k' = k then (if k \<in> fst ` set obj then Some v else None) else map_of obj k')"
    by (induction obj) (auto split: if_splits)
  with True show ?thesis by (simp add: setProp_def)
next
  case False
  then have "map_of obj k = None" by (simp add: map_of_eq_None_iff)
  with False show ?thesis by (auto simp add: setProp_def map_add_def split: option.splits)
qed

lemma pushMeta_own_or_fresh:
  assumes "tag \<notin> set objectPrototypeKeys \<or> tag \<in> fst ` set tm"
  shows "\<exists>tm'. pushMeta tm tag v = Inr tm' \<and>
           map_of tm' tag = Some ((case map_of tm tag of None \<Rightarrow> [] | Some vs \<Rightarrow> vs) @ [v]) \<and>
           (\<forall>k. k \<noteq> tag \<longrightarrow> map_of tm' k = map_of tm k)"
proof (cases "map_of tm tag")
  case None
  then have "tag \<notin> fst ` set tm" by (simp add: map_of_eq_None_iff)
  with assms None show ?thesis
    by (simp add: pushMeta_def getProp_def map_of_setProp)
next
  case (Some vs)
  then show ?thesis by (simp add: pushMeta_def getProp_def map_of_setProp)
qed

lemma pushMeta_inherited:
  assumes "tag \<in> set objectPrototypeKeys" "tag \<notin> fst ` set tm"
  shows "pushMeta tm tag v = Inl (TypeError ''tagMeta[currentTag].push is not a function'')"
proof -
  from assms(2) have "map_of tm tag = None" by (simp add: map_of_eq_None_iff)
  with assms(1) show ?thesis by (simp add: pushMeta_def getProp_def)
qed

text \<open>
  With no tag open, a token that does not start with \<^verbatim>\<open>#\<close> goes to the note, and a
  run of such tokens is appended to the note as it stands.
\<close>

lemma scanStep_note:
  assumes "\<not> startsWithHash token" "currentTag s = None"
  shows "scanStep s token = Inr (s\<lparr>noteParts := noteParts s @ [token]\<rparr>)"
  using assms by (simp add: scanStep_def)

lemma scanTokens_note:
  assumes "\<forall>t\<in>set ts. \<not> startsWithHash t" "currentTag s = None"
  shows "scanTokens s ts = Inr (s\<lparr>noteParts := noteParts s @ ts\<rparr>)"
  using assms
proof (induction ts arbitrary: s)
  case Nil
  then show ?case by simp
next
  case (Cons t ts)
  then show ?case by (simp add: scanStep_note)
qed

text \<open>
  With a tag open whose name is not an inherited property name (or is already an own
  property of the metadata object), a token that does not start with \<^verbatim>\<open>#\<close> is
  appended to that tag's metadata and nothing else changes; a run of such tokens
  accumulates there in order.
\<close>

lemma scanStep_meta:
  assumes "\<not> startsWithHash token" "currentTag s = Some tag"
    and "tag \<notin> set objectPrototypeKeys \<or> tag \<in> fst ` set (tagMeta s)"
  shows "\<exists>tm. scanStep s token = Inr (s\<lparr>tagMeta := tm\<rparr>) \<and>
           map_of tm tag =
             Some ((case map_of (tagMeta s) tag of None \<Rightarrow> [] | Some vs \<Rightarrow> vs) @ [token]) \<and>
           (\<forall>k. k \<noteq> tag \<longrightarrow> map_of tm k = map_of (tagMeta s) k)"
proof -
  from pushMeta_own_or_fresh [OF assms(3), of token] obtain tm
    where p: "pushMeta (tagMeta s) tag token = Inr tm"
      and m: "map_of tm tag =
             Some ((case map_of (tagMeta s) tag of None \<Rightarrow> [] | Some vs \<Rightarrow> vs) @ [token])"
      and o: "\<forall>k. k \<noteq> tag \<longrightarrow> map_of tm k = map_of (tagMeta s) k"
    by blast
  from p assms(1,2) have "scanStep s token = Inr (s\<lparr>tagMeta := tm\<rparr>)"
    by (simp add: scanStep_def)
  with m o show ?thesis by blast
qed

lemma scanTokens_meta:
  assumes "\<forall>t\<in>set ts. \<not> startsWithHash t" "currentTag s = Some tag"
    and "tag \<notin> set objectPrototypeKeys \<or> tag \<in> fst ` set (tagMeta s)"
  shows "\<exists>tm. scanTokens s ts = Inr (s\<lparr>tagMeta := tm\<rparr>) \<and>
           (ts \<noteq> [] \<longrightarrow> map_of tm tag =
             Some ((case map_of (tagMeta s) tag of None \<Rightarrow> [] | Some vs \<Rightarrow> vs) @ ts)) \<and>
           (ts = [] \<longrightarrow> tm = tagMeta s) \<and>
           (\<forall>k. k \<noteq> tag \<longrightarrow> map_of tm k = map_of (tagMeta s) k)"
  using assms
proof (induction ts arbitrary: s)
  case Nil
  then show ?case by simp
next
  case (Cons t ts)
  from Cons.prems have t: "\<not> startsWithHash t" and ts: "\<forall>t\<in>set ts. \<not> startsWithHash t"
    by simp_all
  from scanStep_meta [OF t Cons.prems(2,3)] obtain tm1
    where step: "scanStep s t = Inr (s\<lparr>tagMeta := tm1\<rparr>)"
      and m1: "map_of tm1 tag =
             Some ((case map_of (tagMeta s) tag of None \<Rightarrow> [] | Some vs \<Rightarrow> vs) @ [t])"
      and o1: "\<forall>k. k \<noteq> tag \<longrightarrow> map_of tm1 k = map_of (tagMeta s) k"
    by blast
  let ?s1 = "s\<lparr>tagMeta := tm1\<rparr>"
  have "map_of tm1 tag \<noteq> None" using m1 by simp
  then have "tag \<in> fst ` set tm1" by (simp add: map_of_eq_None_iff)
  then have own: "tag \<in> fst ` set (tagMeta ?s1)" by simp
  have cur: "currentTag ?s1 = Some tag" using Cons.prems(2) by simp
  from Cons.IH [OF ts cur, of ] own obtain tm
    where run: "scanTokens ?s1 ts = Inr (?s1\<lparr>tagMeta := tm\<rparr>)"
      and m: "ts \<noteq> [] \<longrightarrow> map_of tm tag =
             Some ((case map_of (tagMeta ?s1) tag of None \<Rightarrow> [] | Some vs \<Rightarrow> vs) @ ts)"
      and e: "ts = [] \<longrightarrow> tm = tagMeta ?s1"
      and o: "\<forall>k. k \<noteq> tag \<longrightarrow> map_of tm k = map_of (tagMeta ?s1) k"
    by blast
  have "scanTokens s (t # ts) = Inr (s\<lparr>tagMeta := tm\<rparr>)" using step run by simp
  moreover have "map_of tm tag =
      Some ((case map_of (tagMeta s) tag of None \<Rightarrow> [] | Some vs \<Rightarrow> vs) @ t # ts)"
    using m e m1 by (cases "ts = []") simp_all
  moreover have "\<forall>k. k \<noteq> tag \<longrightarrow> map_of tm k = map_of (tagMeta s) k"
    using o o1 by simp
  ultimately show ?case by blast
qed

text \<open>A bare \<^verbatim>\<open>#\<close> closes the open tag, opens none and records nothing.\<close>

lemma scanStep_bare_hash: "scanStep s ''#'' = Inr (s\<lparr>currentTag := None\<rparr>)"
  by (simp add: scanStep_def startsWithHash_def trim_def)

text \<open>The example of the specification: two tags, each with its words, and an empty note.\<close>

lemma scanTokens_example:
  "scanTokens scanInit [''#youtube'', ''analyze'', ''fight'', ''footage'', ''#writing'', ''outline''] =
     Inr \<lparr>rawTags = [''youtube'', ''writing''],
          tagMeta = [(''youtube'', [''analyze'', ''fight'', ''footage'']), (''writing'', [''outline''])],
          noteParts = [], currentTag = Some ''writing''\<rparr>"
  by code_simp

lemma parseTimeLine_example:
  "parseTimeLine ''time: today 1h #youtube analyze fight footage #writing outline'' =
     Inr (Parsed \<lparr>dateToken = ''today'', durationToken = ''1h'',
       tags = [''youtube'', ''writing''],
       tag_meta = [(''youtube'', [''analyze'', ''fight'', ''footage'']), (''writing'', [''outline''])],
       noteText = []\<rparr>)"
  by code_simp

text \<open>
  Claim C4. The claim asks that, for every token list, a token that does not start with
  \<^verbatim>\<open>#\<close> is appended to the metadata of the open tag. The metadata is kept in a plain
  object, so a tag named like an inherited property (\<^verbatim>\<open>constructor\<close>, \<^verbatim>\<open>toString\<close>,
  \<^verbatim>\<open>__proto__\<close>, ...) finds a property that is not a list: the token after
  \<^verbatim>\<open>#constructor\<close> is appended nowhere, and the parser throws instead of returning.
\<close>

theorem parseTimeLine_inherited_tag_name:
  "scanTokens scanInit [''#constructor'', ''refactor''] =
     Inl (TypeError ''tagMeta[currentTag].push is not a function'')
   \<and> parseTimeLine ''time: today 1h #constructor refactor'' =
     Inl (TypeError ''tagMeta[currentTag].push is not a function'')"
  by code_simp

section \<open>Tag index: proofs\<close>












section \<open>Date resolver: proofs\<close>

subsection \<open>Printing a number back into its digits\<close>

lemma digitVal_less: "isDigit c \<Longrightarrow> digitVal c < 10"
  apply (simp add: isDigit_def)
  apply (elim disjE)
  apply (simp_all add: digitVal_def)
  done

lemma digitChar_digitVal: "isDigit c \<Longrightarrow> digitChar (digitVal c) = c"
  apply (simp add: isDigit_def)
  apply (elim disjE)
  apply (simp_all add: digitVal_def digitChar_def)
  done

lemma digitVal_zero: "isDigit c \<Longrightarrow> digitVal c = 0 \<Longrightarrow> c = CHR ''0''"
  apply (simp add: isDigit_def)
  apply (elim disjE)
  apply (simp_all add: digitVal_def)
  done

lemma digitsVal_snoc: "digitsVal (ds @ [c]) = 10 * digitsVal ds + digitVal c"
  by (simp add: digitsVal_def)

lemma showNat_step:
  assumes "v < 10"
  shows "showNat (10 * a + v) = (if a = 0 then [digitChar v] else showNat a @ [digitChar v])"
proof (cases "a = 0")
  case True
  with assms show ?thesis by (simp add: showNat.simps [of v])
next
  case False
  with assms have "\<not> 10 * a + v < 10" "(10 * a + v) div 10 = a" "(10 * a + v) mod 10 = v"
    by simp_all
  with False show ?thesis by (simp add: showNat.simps [of "10 * a + v"])
qed

lemma showNat_digit: "v < 10 \<Longrightarrow> showNat v = [digitChar v]"
  by (simp add: showNat.simps [of v])

lemma digits_all_zero:
  "list_all isDigit ds \<Longrightarrow> digitsVal ds = 0 \<Longrightarrow> ds = replicate (length ds) (CHR ''0'')"
proof (induction ds rule: rev_induct)
  case Nil
  then show ?case by simp
next
  case (snoc c ds)
  from snoc.prems have d: "list_all isDigit ds" "isDigit c"
    and z: "digitsVal ds = 0" "digitVal c = 0"
    by (simp_all add: digitsVal_snoc)
  from digitVal_zero [OF d(2) z(2)] snoc.IH [OF d(1) z(1)]
  have "c = CHR ''0''" "ds = replicate (length ds) (CHR ''0'')" .
  then have "ds @ [c] = replicate (length ds) (CHR ''0'') @ [CHR ''0'']" by simp
  also have "\<dots> = replicate (length (ds @ [c])) (CHR ''0'')"
    by (simp add: replicate_append_same)
  finally show ?case .
qed

lemma length_showNat: "list_all isDigit ds \<Longrightarrow> ds \<noteq> [] \<Longrightarrow> length (showNat (digitsVal ds)) \<le> length ds"
proof (induction ds rule: rev_induct)
  case Nil
  then show ?case by simp
next
  case (snoc c ds)
  from snoc.prems have d: "list_all isDigit ds" "isDigit c" by simp_all
  have v: "digitVal c < 10" using d(2) by (rule digitVal_less)
  show ?case
  proof (cases "ds = []")
    case True
    then show ?thesis using v by (simp add: digitsVal_def showNat.simps [of "digitVal c"])
  next
    case False
    from snoc.IH [OF d(1) False] show ?thesis
      by (simp add: digitsVal_snoc showNat_step [OF v])
  qed
qed

lemma padStart_showNat:
  "list_all isDigit ds \<Longrightarrow> ds \<noteq> [] \<Longrightarrow> padStart (length ds) (showNat (digitsVal ds)) = ds"
proof (induction ds rule: rev_induct)
  case Nil
  then show ?case by simp
next
  case (snoc c ds)
  from snoc.prems have d: "list_all isDigit ds" "isDigit c" by simp_all
  have v: "digitVal c < 10" using d(2) by (rule digitVal_less)
  have c: "digitChar (digitVal c) = c" using d(2) by (rule digitChar_digitVal)
  show ?case
  proof (cases "ds = []")
    case True
    then show ?thesis using v c
      by (simp add: digitsVal_def showNat.simps [of "digitVal c"] padStart_def)
  next
    case False
    note ne = this
    show ?thesis
    proof (cases "digitsVal ds = 0")
      case True
      from digits_all_zero [OF d(1) True] have z: "ds = replicate (length ds) (CHR ''0'')" .
      have "padStart (length (ds @ [c])) (showNat (digitsVal (ds @ [c]))) =
              replicate (length ds) (CHR ''0'') @ [c]"
        using True c by (simp add: digitsVal_snoc showNat_digit [OF v] padStart_def)
      with z show ?thesis by simp
    next
      case False
      from length_showNat [OF d(1) ne]
      have le: "length (showNat (digitsVal ds)) \<le> length ds" .
      have "padStart (length (ds @ [c])) (showNat (digitsVal (ds @ [c]))) =
              padStart (length ds) (showNat (digitsVal ds)) @ [c]"
        using False c le by (simp add: digitsVal_snoc showNat_step [OF v] padStart_def)
      with snoc.IH [OF d(1) ne] show ?thesis by simp
    qed
  qed
qed

subsection \<open>The shape test and the explicit date\<close>

lemma splitOn_run:
  "sep \<notin> set xs \<Longrightarrow> splitOn sep cur (xs @ rest) = splitOn sep (cur @ xs) rest"
  by (induction xs arbitrary: cur) auto

lemma isDigit_not_dash: "isDigit c \<Longrightarrow> c \<noteq> CHR ''-''"
  by (auto simp add: isDigit_def)

lemma splitOn_date:
  assumes "list_all isDigit y" "list_all isDigit m" "list_all isDigit d"
  shows "splitOn (CHR ''-'') [] (y @ ''-'' @ m @ ''-'' @ d) = [y, m, d]"
proof -
  have n: "CHR ''-'' \<notin> set y" "CHR ''-'' \<notin> set m" "CHR ''-'' \<notin> set d"
    using assms isDigit_not_dash by (auto simp add: list_all_iff)
  have "splitOn (CHR ''-'') [] (y @ ''-'' @ m @ ''-'' @ d) =
        y # splitOn (CHR ''-'') [] (m @ ''-'' @ d)"
    using splitOn_run [OF n(1), of "[]" "''-'' @ m @ ''-'' @ d"] by simp
  also have "splitOn (CHR ''-'') [] (m @ ''-'' @ d) = m # splitOn (CHR ''-'') [] d"
    using splitOn_run [OF n(2), of "[]" "''-'' @ d"] by simp
  also have "splitOn (CHR ''-'') [] d = [d]"
    using splitOn_run [OF n(3), of "[]" "[]"] by simp
  finally show ?thesis .
qed

lemma dateMatch_shape: "dateMatch token \<longleftrightarrow> isDateShape token"
proof
  assume "dateMatch token"
  then obtain y1 y2 y3 y4 m1 m2 d1 d2 where
    t: "token = [y1, y2, y3, y4, CHR ''-'', m1, m2, CHR ''-'', d1, d2]"
    and dg: "list_all isDigit [y1, y2, y3, y4, m1, m2, d1, d2]"
    by (auto simp add: dateMatch_def split: list.splits)
  have "token = [y1, y2, y3, y4] @ ''-'' @ [m1, m2] @ ''-'' @ [d1, d2]" using t by simp
  moreover have "list_all isDigit [y1, y2, y3, y4]" "list_all isDigit [m1, m2]"
    "list_all isDigit [d1, d2]" using dg by simp_all
  ultimately show "isDateShape token" unfolding isDateShape_def
    by (intro exI [of _ "[y1, y2, y3, y4]"] exI [of _ "[m1, m2]"] exI [of _ "[d1, d2]"]) simp
next
  assume "isDateShape token"
  then obtain y m d where t: "token = y @ ''-'' @ m @ ''-'' @ d"
    and len: "length y = 4" "length m = 2" "length d = 2"
    and dg: "list_all isDigit y" "list_all isDigit m" "list_all isDigit d"
    by (auto simp add: isDateShape_def)
  from len(1) obtain y1 y2 y3 y4 where y: "y = [y1, y2, y3, y4]"
    by (auto simp add: length_Suc_conv numeral_eq_Suc)
  from len(2) obtain m1 m2 where m: "m = [m1, m2]"
    by (auto simp add: length_Suc_conv numeral_eq_Suc)
  from len(3) obtain d1 d2 where d: "d = [d1, d2]"
    by (auto simp add: length_Suc_conv numeral_eq_Suc)
  show "dateMatch token" using t dg unfolding y m d by (simp add: dateMatch_def)
qed

lemma showInt_int: "showInt (int n) = showNat n"
  by (simp add: showInt_def)

lemma resolve_explicit:
  assumes "isDateShape token"
  shows "resolveDateToken getTz (Some token) commitDate timeZone = Some token"
proof -
  from assms obtain y m d where t: "token = y @ ''-'' @ m @ ''-'' @ d"
    and len: "length y = 4" "length m = 2" "length d = 2"
    and dg: "list_all isDigit y" "list_all isDigit m" "list_all isDigit d"
    by (auto simp add: isDateShape_def)
  have ne: "y \<noteq> []" "m \<noteq> []" "d \<noteq> []" using len by auto
  have lt: "length token = 10" using t len by simp
  have n: "token \<noteq> []" "token \<noteq> ''today''" "token \<noteq> ''yesterday''" using lt by auto
  have dm: "dateMatch token" using assms by (simp add: dateMatch_shape)
  have p: "parseDateString token =
      Some \<lparr>year = int (digitsVal y), month = int (digitsVal m), day = int (digitsVal d)\<rparr>"
    using dm splitOn_date [OF dg] by (simp add: parseDateString_def t)
  have "datePartsToString
      \<lparr>year = int (digitsVal y), month = int (digitsVal m), day = int (digitsVal d)\<rparr> = token"
    using padStart_showNat [OF dg(1) ne(1)] padStart_showNat [OF dg(2) ne(2)]
      padStart_showNat [OF dg(3) ne(3)] len
    by (simp add: datePartsToString_def showInt_int t)
  with p n show ?thesis by (simp add: resolveDateToken_def)
qed

lemma resolve_other:
  assumes "token \<noteq> ''today''" "token \<noteq> ''yesterday''" "\<not> isDateShape token"
  shows "resolveDateToken getTz (Some token) commitDate timeZone = None"
  using assms by (simp add: resolveDateToken_def parseDateString_def dateMatch_shape)

subsection \<open>The day before, through the day arithmetic\<close>

lemma dayFromYear_less: "dayFromYear y < dayFromYear (y + 1)"
  using dayFromYear_step [of y] by (simp add: daysInYear_def)

lemma dayFromYear_mono: "a \<le> b \<Longrightarrow> dayFromYear a \<le> dayFromYear b"
proof (induction b rule: int_ge_induct)
  case base
  show ?case by simp
next
  case (step i)
  from step.IH dayFromYear_less [of i] show ?case by simp
qed

lemma dayFromYear_1970: "dayFromYear 1970 = 0"
  by (simp add: dayFromYear_def)

lemma dayFromYear_lower: "1970 \<le> y \<Longrightarrow> 365 * (y - 1970) \<le> dayFromYear y"
proof (induction y rule: int_ge_induct)
  case base
  show ?case by (simp add: dayFromYear_1970)
next
  case (step i)
  have "365 \<le> daysInYear i" by (simp add: daysInYear_def)
  with step.IH dayFromYear_step [of i] show ?case by simp
qed

lemma yearDown_found:
  assumes "dayFromYear y \<le> d" "d < dayFromYear (y + 1)"
  shows "y \<le> s \<Longrightarrow> yearDown d s = y"
proof (induction "nat (s - y)" arbitrary: s)
  case 0
  then have "s = y" by simp
  with assms(1) show ?case by simp
next
  case (Suc n)
  then have s: "y + 1 \<le> s" by linarith
  from dayFromYear_mono [OF s] assms(2) have "\<not> dayFromYear s \<le> d" by simp
  moreover have "yearDown d (s - 1) = y" using Suc.hyps(2) s by (intro Suc.hyps(1)) simp_all
  ultimately show ?case by simp
qed

lemma yearFromDay_unique:
  assumes "dayFromYear y \<le> d" "d < dayFromYear (y + 1)"
  shows "yearFromDay d = y"
proof -
  have "y \<le> (if 0 \<le> d then 1971 + d div 365 else 1970)"
  proof (cases "0 \<le> d")
    case True
    show ?thesis
    proof (cases "1970 \<le> y")
      case True
      from dayFromYear_lower [OF this] assms(1) have "365 * (y - 1970) \<le> d" by simp
      then have "(365 * (y - 1970)) div 365 \<le> d div 365" by (rule zdiv_mono1) simp
      then have "y - 1970 \<le> d div 365" by simp
      with \<open>0 \<le> d\<close> show ?thesis by simp
    next
      case False
      moreover have "0 \<le> d div 365" using \<open>0 \<le> d\<close> by (simp add: pos_imp_zdiv_nonneg_iff)
      ultimately show ?thesis using \<open>0 \<le> d\<close> by simp
    qed
  next
    case False
    have "y < 1970"
    proof (rule ccontr)
      assume "\<not> y < 1970"
      then have "dayFromYear 1970 \<le> dayFromYear y" by (intro dayFromYear_mono) simp
      with assms(1) False show False by (simp add: dayFromYear_1970)
    qed
    with False show ?thesis by simp
  qed
  from yearDown_found [OF assms this] show ?thesis by (simp add: yearFromDay_def)
qed

lemma yearFromDay_within:
  assumes "0 \<le> w" "w < 365 + leapDays y"
  shows "yearFromDay (dayFromYear y + w) = y"
proof (rule yearFromDay_unique)
  show "dayFromYear y \<le> dayFromYear y + w" using assms(1) by simp
  show "dayFromYear y + w < dayFromYear (y + 1)"
    using assms(2) by (simp add: dayFromYear_step daysInYear_def leapDays_def split: if_splits)
qed

lemma leapDays_cases: "leapDays y = 0 \<or> leapDays y = 1"
  by (simp add: leapDays_def)

lemma parts_within:
  assumes "0 \<le> w" "w < 365 + leapDays y"
  shows "yearFromDay (dayFromYear y + w) = y"
    and "monthFromDay (dayFromYear y + w) = monthWithin w (leapDays y)"
    and "dateFromDay (dayFromYear y + w) = dateWithin w (leapDays y) (monthWithin w (leapDays y))"
proof -
  show y: "yearFromDay (dayFromYear y + w) = y" using assms by (rule yearFromDay_within)
  show m: "monthFromDay (dayFromYear y + w) = monthWithin w (leapDays y)"
    unfolding monthFromDay_def y by (simp add: Let_def)
  show "dateFromDay (dayFromYear y + w) = dateWithin w (leapDays y) (monthWithin w (leapDays y))"
    unfolding dateFromDay_def y m by (simp add: Let_def)
qed

lemma dateUTC_valid:
  assumes "validDate p"
  shows "dateUTC (year p) (month p - 1) (day p) =
           dayFromYear (year p) + monthStart (month p - 1) (leapDays (year p)) + day p - 1"
proof -
  from assms have m: "0 \<le> month p - 1" "month p - 1 < 12" and y: "\<not> (year p \<le> 99)"
    by (simp_all add: validDate_def)
  from m have "(month p - 1) div 12 = 0" "(month p - 1) mod 12 = month p - 1"
    by (simp_all add: div_pos_pos_trivial mod_pos_pos_trivial)
  with y show ?thesis by (simp add: dateUTC_def makeDay_def Let_def)
qed

text \<open>The length of month \<open>m\<close> (from 1) in a year with leap day \<open>l\<close>.\<close>

lemma month_index_cases:
  fixes mn :: int
  assumes "0 \<le> mn" "mn \<le> 11"
  shows "mn = 0 \<or> mn = 1 \<or> mn = 2 \<or> mn = 3 \<or> mn = 4 \<or> mn = 5 \<or> mn = 6 \<or> mn = 7 \<or>
         mn = 8 \<or> mn = 9 \<or> mn = 10 \<or> mn = 11"
proof -
  have "mn = 0 \<or> 1 \<le> mn" using assms(1) by linarith
  moreover have "1 \<le> mn \<Longrightarrow> mn = 1 \<or> 2 \<le> mn" by linarith
  moreover have "2 \<le> mn \<Longrightarrow> mn = 2 \<or> 3 \<le> mn" by linarith
  moreover have "3 \<le> mn \<Longrightarrow> mn = 3 \<or> 4 \<le> mn" by linarith
  moreover have "4 \<le> mn \<Longrightarrow> mn = 4 \<or> 5 \<le> mn" by linarith
  moreover have "5 \<le> mn \<Longrightarrow> mn = 5 \<or> 6 \<le> mn" by linarith
  moreover have "6 \<le> mn \<Longrightarrow> mn = 6 \<or> 7 \<le> mn" by linarith
  moreover have "7 \<le> mn \<Longrightarrow> mn = 7 \<or> 8 \<le> mn" by linarith
  moreover have "8 \<le> mn \<Longrightarrow> mn = 8 \<or> 9 \<le> mn" by linarith
  moreover have "9 \<le> mn \<Longrightarrow> mn = 9 \<or> 10 \<le> mn" by linarith
  moreover have "10 \<le> mn \<Longrightarrow> mn = 10 \<or> 11 \<le> mn" by linarith
  moreover have "11 \<le> mn \<Longrightarrow> mn = 11" using assms(2) by linarith
  ultimately show ?thesis by blast
qed

lemma leapDays_bounds: "0 \<le> leapDays y" "leapDays y \<le> 1"
  by (simp_all add: leapDays_def)

lemma within_month:
  assumes mn: "0 \<le> mn" "mn \<le> 11"
    and lo: "monthStart mn (leapDays y) \<le> w"
    and hi: "w < monthStart mn (leapDays y) + daysInMonth y (mn + 1)"
  shows "monthWithin w (leapDays y) = mn"
    and "dateWithin w (leapDays y) mn = w - monthStart mn (leapDays y) + 1"
    and "0 \<le> w" and "w < 365 + leapDays y"
proof -
  note b = leapDays_bounds [of y]
  from month_index_cases [OF mn] lo hi b
  show "monthWithin w (leapDays y) = mn"
    by (elim disjE) (simp_all add: monthStart_def daysInMonth_def monthWithin_def)
  from month_index_cases [OF mn]
  show "dateWithin w (leapDays y) mn = w - monthStart mn (leapDays y) + 1"
    by (elim disjE) (simp_all add: monthStart_def dateWithin_def)
  from month_index_cases [OF mn] lo b
  show "0 \<le> w"
    by (elim disjE) (simp_all add: monthStart_def)
  from month_index_cases [OF mn] hi b
  show "w < 365 + leapDays y"
    by (elim disjE) (simp_all add: monthStart_def daysInMonth_def)
qed

lemma monthStart_next:
  assumes "1 \<le> mn" "mn \<le> 11"
  shows "monthStart mn (leapDays y) = monthStart (mn - 1) (leapDays y) + daysInMonth y mn"
proof -
  from assms have "0 \<le> mn" by simp
  from month_index_cases [OF this assms(2)] assms(1) show ?thesis
    by (elim disjE) (simp_all add: monthStart_def daysInMonth_def)
qed

lemma daysInMonth_pos: "1 \<le> daysInMonth y m"
  using leapDays_bounds [of y] by (simp add: daysInMonth_def)

lemma addDays_at:
  assumes "dateUTC (year p) (month p - 1) (day p) + delta = n"
  shows "addDays p delta =
     \<lparr>year = yearFromDay n, month = monthFromDay n + 1, day = dateFromDay n\<rparr>"
  unfolding addDays_def Let_def assms by (rule refl)

lemma addDays_previous_within:
  assumes v: "validDate p" and n: "\<not> (month p = 1 \<and> day p = 1)"
  shows "addDays p (- 1) = previousDay p"
proof -
  define l where "l = leapDays (year p)"
  define w where "w = monthStart (month p - 1) l + day p - 2"
  from v have mr: "1 \<le> month p" "month p \<le> 12"
    and dr: "1 \<le> day p" "day p \<le> daysInMonth (year p) (month p)"
    by (simp_all add: validDate_def)
  have base: "dateUTC (year p) (month p - 1) (day p) + - 1 = dayFromYear (year p) + w"
    using dateUTC_valid [OF v] by (simp add: w_def l_def)
  show ?thesis
  proof (cases "1 < day p")
    case True
    have mn: "0 \<le> month p - 1" "month p - 1 \<le> 11" using mr by simp_all
    have lo: "monthStart (month p - 1) (leapDays (year p)) \<le> w"
      using True by (simp add: w_def l_def)
    have hi: "w < monthStart (month p - 1) (leapDays (year p)) + daysInMonth (year p) (month p - 1 + 1)"
      using dr(2) by (simp add: w_def l_def)
    note wm = within_month [OF mn lo hi]
    note pw = parts_within [OF wm(3,4)]
    have "addDays p (- 1) = \<lparr>year = year p, month = month p, day = day p - 1\<rparr>"
      unfolding addDays_at [OF base] pw wm(1,2) by (simp add: w_def l_def)
    also have "\<dots> = previousDay p" using True by (simp add: previousDay_def)
    finally show ?thesis .
  next
    case False
    with dr(1) have d1: "day p = 1" by simp
    with n mr(1) have m2: "2 \<le> month p" by linarith
    have mn: "0 \<le> month p - 2" "month p - 2 \<le> 11" using mr m2 by simp_all
    have nx: "monthStart (month p - 1) (leapDays (year p)) =
        monthStart (month p - 2) (leapDays (year p)) + daysInMonth (year p) (month p - 1)"
      using monthStart_next [of "month p - 1" "year p"] mr m2 by simp
    have lo: "monthStart (month p - 2) (leapDays (year p)) \<le> w"
      using nx d1 daysInMonth_pos [of "year p" "month p - 1"] by (simp add: w_def l_def)
    have hi: "w < monthStart (month p - 2) (leapDays (year p)) + daysInMonth (year p) (month p - 2 + 1)"
      using nx d1 by (simp add: w_def l_def)
    note wm = within_month [OF mn lo hi]
    note pw = parts_within [OF wm(3,4)]
    have "addDays p (- 1) =
        \<lparr>year = year p, month = month p - 1, day = daysInMonth (year p) (month p - 1)\<rparr>"
      unfolding addDays_at [OF base] pw wm(1,2) using nx d1 by (simp add: w_def l_def)
    also have "\<dots> = previousDay p" using d1 m2 by (simp add: previousDay_def)
    finally show ?thesis .
  qed
qed

lemma addDays_previous_newyear:
  assumes v: "validDate p" and n: "month p = 1 \<and> day p = 1"
  shows "addDays p (- 1) = previousDay p"
proof -
  define y where "y = year p"
  define l where "l = leapDays (y - 1)"
  note b = leapDays_bounds [of "y - 1"]
  have "dayFromYear (y - 1 + 1) = dayFromYear (y - 1) + daysInYear (y - 1)"
    by (rule dayFromYear_step)
  then have st: "dayFromYear y = dayFromYear (y - 1) + (365 + l)"
    by (simp add: daysInYear_def l_def leapDays_def)
  have "dateUTC (year p) (month p - 1) (day p) + - 1 = dayFromYear y - 1"
    using dateUTC_valid [OF v] n by (simp add: monthStart_def y_def)
  then have base: "dateUTC (year p) (month p - 1) (day p) + - 1 = dayFromYear (y - 1) + (364 + l)"
    using st by simp
  have w0: "0 \<le> 364 + l" and w1: "364 + l < 365 + leapDays (y - 1)"
    using b by (simp_all add: l_def)
  note pw = parts_within [OF w0 w1]
  have mo: "monthWithin (364 + l) l = 11"
    using b by (simp add: monthWithin_def l_def)
  have da: "dateWithin (364 + l) l 11 = 31"
    by (simp add: dateWithin_def)
  have "addDays p (- 1) = \<lparr>year = y - 1, month = 12, day = 31\<rparr>"
    unfolding addDays_at [OF base] pw l_def [symmetric] mo da by simp
  also have "\<dots> = previousDay p" using n by (simp add: previousDay_def y_def)
  finally show ?thesis .
qed

lemma addDays_previousDay: "validDate p \<Longrightarrow> addDays p (- 1) = previousDay p"
  using addDays_previous_within addDays_previous_newyear by blast

subsection \<open>The four cases of resolveDateToken\<close>

lemma resolve_today:
  "resolveDateToken getTz (Some ''today'') commitDate timeZone =
     Some (datePartsToString (getTz commitDate timeZone))"
  by (simp add: resolveDateToken_def)

lemma resolve_yesterday:
  assumes "validDate (getTz commitDate timeZone)"
  shows "resolveDateToken getTz (Some ''yesterday'') commitDate timeZone =
     Some (datePartsToString (previousDay (getTz commitDate timeZone)))"
  using addDays_previousDay [OF assms] by (simp add: resolveDateToken_def Let_def)

lemma isDateShape_example: "isDateShape ''2026-02-30''"
proof -
  have "dateMatch ''2026-02-30''" by code_simp
  then show ?thesis by (simp add: dateMatch_shape)
qed

text \<open>
  Claim C8. \<^verbatim>\<open>today\<close> resolves to the commit timestamp projected into the time zone;
  \<^verbatim>\<open>yesterday\<close> to the calendar day before it (the projection being a date of the
  calendar); a token of the exact shape \<^verbatim>\<open>YYYY-MM-DD\<close> is returned as it is, whatever
  its month and day, as \<^verbatim>\<open>2026-02-30\<close> is; every other token, and a missing token,
  resolves to nothing.
\<close>

theorem resolveDateToken_cases:
  "resolveDateToken getTz (Some ''today'') commitDate timeZone =
     Some (datePartsToString (getTz commitDate timeZone))
   \<and> (validDate (getTz commitDate timeZone) \<longrightarrow>
        resolveDateToken getTz (Some ''yesterday'') commitDate timeZone =
          Some (datePartsToString (previousDay (getTz commitDate timeZone))))
   \<and> (isDateShape token \<longrightarrow>
        resolveDateToken getTz (Some token) commitDate timeZone = Some token)
   \<and> (token \<noteq> ''today'' \<and> token \<noteq> ''yesterday'' \<and> \<not> isDateShape token \<longrightarrow>
        resolveDateToken getTz (Some token) commitDate timeZone = None)
   \<and> resolveDateToken getTz None commitDate timeZone = None
   \<and> resolveDateToken getTz (Some ''2026-02-30'') commitDate timeZone = Some ''2026-02-30''"
proof (intro conjI impI)
  show "resolveDateToken getTz (Some ''today'') commitDate timeZone =
     Some (datePartsToString (getTz commitDate timeZone))"
    by (rule resolve_today)
next
  assume "validDate (getTz commitDate timeZone)"
  then show "resolveDateToken getTz (Some ''yesterday'') commitDate timeZone =
          Some (datePartsToString (previousDay (getTz commitDate timeZone)))"
    by (rule resolve_yesterday)
next
  assume "isDateShape token"
  then show "resolveDateToken getTz (Some token) commitDate timeZone = Some token"
    by (rule resolve_explicit)
next
  assume "token \<noteq> ''today'' \<and> token \<noteq> ''yesterday'' \<and> \<not> isDateShape token"
  then show "resolveDateToken getTz (Some token) commitDate timeZone = None"
    by (simp add: resolve_other)
next
  show "resolveDateToken getTz None commitDate timeZone = None"
    by (simp add: resolveDateToken_def)
next
  show "resolveDateToken getTz (Some ''2026-02-30'') commitDate timeZone = Some ''2026-02-30''"
    using isDateShape_example by (rule resolve_explicit)
qed

theorem resolveDateToken_cases_witness:
  "validDate \<lparr>year = 2024, month = 3, day = 1\<rparr>
   \<and> resolveDateToken (\<lambda>d z. \<lparr>year = 2024, month = 3, day = 1\<rparr>) (Some ''yesterday'')
        ''2024-02-29T23:30:00+00:00'' ''Asia/Tokyo'' = Some ''2024-02-29''
   \<and> isDateShape ''2026-13-45''
   \<and> resolveDateToken (\<lambda>d z. \<lparr>year = 2024, month = 3, day = 1\<rparr>) (Some ''2026-13-45'')
        ''2024-02-29T23:30:00+00:00'' ''Asia/Tokyo'' = Some ''2026-13-45''
   \<and> \<not> isDateShape ''tomorrow''
   \<and> resolveDateToken (\<lambda>d z. \<lparr>year = 2024, month = 3, day = 1\<rparr>) (Some ''tomorrow'')
        ''2024-02-29T23:30:00+00:00'' ''Asia/Tokyo'' = None"
proof -
  let ?tz = "\<lambda>(d::string) (z::string). \<lparr>year = 2024, month = 3, day = 1\<rparr>"
  have v: "validDate (?tz ''2024-02-29T23:30:00+00:00'' ''Asia/Tokyo'')"
    by (simp add: validDate_def daysInMonth_def)
  have "previousDay \<lparr>year = 2024, month = 3, day = 1\<rparr> = \<lparr>year = 2024, month = 2, day = 29\<rparr>"
    by (simp add: previousDay_def daysInMonth_def leapDays_def inLeapYear_def)
  moreover have "datePartsToString \<lparr>year = 2024, month = 2, day = 29\<rparr> = ''2024-02-29''"
    by code_simp
  ultimately have y: "resolveDateToken ?tz (Some ''yesterday'')
        ''2024-02-29T23:30:00+00:00'' ''Asia/Tokyo'' = Some ''2024-02-29''"
    using resolveDateToken_cases [of ?tz "''2024-02-29T23:30:00+00:00''" "''Asia/Tokyo''" "[]"] v
    by simp
  have "dateMatch ''2026-13-45''" by code_simp
  then have s: "isDateShape ''2026-13-45''" by (simp add: dateMatch_shape)
  have e: "resolveDateToken ?tz (Some ''2026-13-45'')
        ''2024-02-29T23:30:00+00:00'' ''Asia/Tokyo'' = Some ''2026-13-45''"
    using resolveDateToken_cases [of ?tz "''2024-02-29T23:30:00+00:00''" "''Asia/Tokyo''"
        "''2026-13-45''"] s
    by blast
  have "\<not> dateMatch ''tomorrow''" by code_simp
  then have n: "\<not> isDateShape ''tomorrow''" by (simp add: dateMatch_shape)
  have o: "resolveDateToken ?tz (Some ''tomorrow'')
        ''2024-02-29T23:30:00+00:00'' ''Asia/Tokyo'' = None"
    using resolveDateToken_cases [of ?tz "''2024-02-29T23:30:00+00:00''" "''Asia/Tokyo''"
        "''tomorrow''"] n
    by simp
  from v y s e n o show ?thesis by simp
qed

section \<open>Classifier fallback: proofs\<close>









section \<open>Ingestion coordinator: proofs\<close>

subsection \<open>One line, case by case\<close>







subsection \<open>The classifier stage\<close>







subsection \<open>The day-store check\<close>

lemma hasId_loadDaily:
  "hasId st ds i \<longleftrightarrow> list_ex (\<lambda>x. entryId x = i) (entries (loadDaily st ds tz))"
  by (simp add: hasId_def loadDaily_def split: option.splits)

lemma storeStage_skip:
  "hasId st ds (entryId en) \<Longrightarrow>
     storeStage ds en tz st = (Skipped (entryId en), st\<lparr>skippedCount := skippedCount st + 1\<rparr>)"
  using hasId_loadDaily [of st ds "entryId en" tz] by (simp add: storeStage_def)

lemma storeStage_add:
  "\<not> hasId st ds (entryId en) \<Longrightarrow>
     storeStage ds en tz st =
       (Added (entryId en),
        st\<lparr>dayFiles := (dayFiles st)(ds \<mapsto>
              (loadDaily st ds tz)\<lparr>entries := entries (loadDaily st ds tz) @ [en]\<rparr>),
           addedCount := addedCount st + 1\<rparr>)"
  using hasId_loadDaily [of st ds "entryId en" tz] by (simp add: storeStage_def Let_def)

lemma storeStage_hasId:
  assumes "storeStage ds en tz st = (out, st')"
  shows "hasId st' ds (entryId en)"
proof (cases "hasId st ds (entryId en)")
  case True
  with assms storeStage_skip [OF True, of tz] show ?thesis by (auto simp add: hasId_def)
next
  case False
  with assms storeStage_add [OF False, of tz] show ?thesis by (auto simp add: hasId_def)
qed

lemma storeStage_keeps:
  assumes "storeStage ds en tz st = (out, st')" "hasId st d i"
  shows "hasId st' d i"
proof (cases "hasId st ds (entryId en)")
  case True
  with assms storeStage_skip [OF True, of tz] show ?thesis by (auto simp add: hasId_def)
next
  case False
  from assms(1) storeStage_add [OF False, of tz]
  have st': "dayFiles st' = (dayFiles st)(ds \<mapsto>
      (loadDaily st ds tz)\<lparr>entries := entries (loadDaily st ds tz) @ [en]\<rparr>)"
    by auto
  show ?thesis
  proof (cases "d = ds")
    case True
    with assms(2) have "list_ex (\<lambda>x. entryId x = i) (entries (loadDaily st ds tz))"
      using hasId_loadDaily [of st ds i tz] by simp
    then show ?thesis using True st' by (simp add: hasId_def)
  next
    case False
    with assms(2) st' show ?thesis by (simp add: hasId_def)
  qed
qed


subsection \<open>What a line that reaches the day store leaves behind\<close>















subsection \<open>The four ways a line can go\<close>



lemma lineTarget_reaches:
  "reaches e c line p ds h \<Longrightarrow> lineTarget e c k line = Some (ds, makeId (sha c) k)"
  by (simp add: reaches_def lineTarget_def)




subsection \<open>Classifier failures\<close>









subsection \<open>The cache short-circuit\<close>









end
